theory Spec2Isabelle
  imports Main "HOL-Library.Sublist"
begin

section \<open>Strings\<close>

text \<open>
  Python strings are modelled as \<open>string\<close>; one \<open>char\<close> stands for one code
  point below 256, so \<open>length\<close> is Python's \<open>len\<close> on such text.
  \<open>endswith\<close> is \<open>suffix\<close> and the substring test \<open>a in b\<close> is \<open>sublist a b\<close>.
\<close>

definition is_alnum :: "char \<Rightarrow> bool" where
  \<comment> \<open>the regular-expression class \<open>[a-zA-Z0-9]\<close>\<close>
  "is_alnum c =
     (let n = of_char c :: nat
      in (97 \<le> n \<and> n \<le> 122) \<or> (65 \<le> n \<and> n \<le> 90) \<or> (48 \<le> n \<and> n \<le> 57))"

definition is_space :: "char \<Rightarrow> bool" where
  \<comment> \<open>\<open>\s\<close> on text and the characters \<open>str.strip()\<close> removes, below code point 256\<close>
  "is_space c =
     (let n = of_char c :: nat
      in (9 \<le> n \<and> n \<le> 13) \<or> (28 \<le> n \<and> n \<le> 32) \<or> n = 133 \<or> n = 160)"

definition strip :: "string \<Rightarrow> string" where
  \<comment> \<open>\<open>s.strip()\<close>\<close>
  "strip s = rev (dropWhile is_space (rev (dropWhile is_space s)))"

fun replace_char :: "char \<Rightarrow> string \<Rightarrow> string \<Rightarrow> string" where
  \<comment> \<open>\<open>s.replace(c, r)\<close> for a one-character \<open>c\<close>\<close>
  "replace_char c r [] = []"
| "replace_char c r (x # xs) = (if x = c then r @ replace_char c r xs else x # replace_char c r xs)"

fun spaces_to_underscore :: "string \<Rightarrow> string" where
  \<comment> \<open>\<open>re.sub(r'\s+', '_', s)\<close>: every maximal run of whitespace becomes one underscore\<close>
  "spaces_to_underscore [] = []"
| "spaces_to_underscore [a] = [if is_space a then CHR ''_'' else a]"
| "spaces_to_underscore (a # b # cs) =
     (if is_space a \<and> is_space b then spaces_to_underscore (b # cs)
      else (if is_space a then CHR ''_'' else a) # spaces_to_underscore (b # cs))"

fun collapse_underscores :: "string \<Rightarrow> string" where
  \<comment> \<open>\<open>re.sub(r'_{2,}', '_', s)\<close>\<close>
  "collapse_underscores [] = []"
| "collapse_underscores [a] = [a]"
| "collapse_underscores (a # b # cs) =
     (if a = CHR ''_'' \<and> b = CHR ''_'' then collapse_underscores (b # cs)
      else a # collapse_underscores (b # cs))"

definition trim_underscores :: "string \<Rightarrow> string" where
  \<comment> \<open>\<open>re.sub(r'^_+|_+$', '', s)\<close> on text without a line break\<close>
  "trim_underscores s =
     rev (dropWhile (\<lambda>c. c = CHR ''_'') (rev (dropWhile (\<lambda>c. c = CHR ''_'') s)))"

section \<open>Filename sanitizer (\<open>CompleteNSEMonitor.create_safe_filename\<close>)\<close>

text \<open>
  The two readings of the clock are parameters: \<open>stamp_date\<close> is
  \<open>datetime.now().strftime('%d%b%Y_%H%M%S')\<close> and \<open>stamp_file\<close> is
  \<open>datetime.now().strftime('%Y%m%d_%H%M%S')\<close>. The \<open>except\<close> branch of the source is
  reached only when an argument is not text, which the types exclude.
\<close>

definition file_ext_of :: "string \<Rightarrow> string" where
  "file_ext_of file_url =
     (if suffix ''.pdf'' file_url then ''.pdf''
      else if suffix ''.xml'' file_url then ''.xml''
      else ''.pdf'')"

definition company_clean_of :: "string \<Rightarrow> string" where
  "company_clean_of company =
     spaces_to_underscore (strip (filter (\<lambda>c. is_alnum c \<or> is_space c) company))"

definition date_clean_of :: "string \<Rightarrow> string \<Rightarrow> string" where
  "date_clean_of stamp_date pub_date =
     (if pub_date \<noteq> [] then
        filter (\<lambda>c. is_alnum c \<or> c = CHR ''_'')
          (replace_char CHR '' '' ''_'' (replace_char CHR '':'' [] (replace_char CHR ''-'' [] pub_date)))
      else stamp_date)"

definition create_safe_filename :: "string \<Rightarrow> string \<Rightarrow> string \<Rightarrow> string \<Rightarrow> string \<Rightarrow> string" where
  "create_safe_filename stamp_date stamp_file company pub_date file_url =
     (let company_clean = company_clean_of company;
          date_clean = date_clean_of stamp_date pub_date;
          file_ext = file_ext_of file_url;
          filename = company_clean @ ''_'' @ date_clean @ file_ext;
          filename = collapse_underscores filename;
          filename = trim_underscores filename;
          filename = (if filename = [] \<or> filename = file_ext \<or> length filename < 5
                      then ''NSE_Announcement_'' @ stamp_file @ file_ext
                      else filename)
      in if length filename > 200 then take 190 filename @ file_ext else filename)"

definition name_stem :: "string \<Rightarrow> string \<Rightarrow> string \<Rightarrow> string" where
  \<comment> \<open>auxiliary: what \<open>create_safe_filename\<close> has before the extension, ahead of its two last checks\<close>
  "name_stem stamp_date company pub_date =
     dropWhile (\<lambda>c. c = CHR ''_'')
       (collapse_underscores (company_clean_of company @ ''_'' @ date_clean_of stamp_date pub_date))"

section \<open>The outside world\<close>

text \<open>
  Network transfers, child processes, the XML library and the clock are not part of the
  program. Their results are read from an environment, indexed by a counter (\<open>tick\<close>)
  that every external action and every reading of the clock advances; theorems hold for
  every environment. Operations on the local file system (open, write,
  remove, append) are taken to succeed.
\<close>

type_synonym path = string
type_synonym bytes = string

datatype transfer =
    Refused         \<comment> \<open>\<open>session.get\<close> or \<open>raise_for_status\<close> raised: nothing was written\<close>
  | Broken bytes    \<comment> \<open>the target was opened and these bytes written, then the stream raised\<close>
  | Done bytes      \<comment> \<open>the whole body was written\<close>

datatype proc =
    TimedOut "bytes option"      \<comment> \<open>\<open>subprocess.run\<close> raised \<open>TimeoutExpired\<close>\<close>
  | NotStarted                   \<comment> \<open>it raised before the tool ran (tool missing)\<close>
  | Exited int "bytes option"    \<comment> \<open>exit status; with it, what the tool left at its output path\<close>

datatype fetched =
    FetchRaised
  | FetchExited int string       \<comment> \<open>exit status and captured standard output\<close>

datatype head = HeadRaised | NoLength | Length int

datatype element = Element (tag: string) (el_text: "string option") (children: "element list")

record clock_reading =
  iso :: string          \<comment> \<open>\<open>datetime.now().isoformat()\<close>\<close>
  plain :: string        \<comment> \<open>\<open>str(datetime.now())\<close>\<close>
  stamp_date :: string   \<comment> \<open>\<open>strftime('%d%b%Y_%H%M%S')\<close>\<close>
  stamp_file :: string   \<comment> \<open>\<open>strftime('%Y%m%d_%H%M%S')\<close>\<close>

type_synonym item = "string \<rightharpoonup> string"

record env =
  requests_get :: "nat \<Rightarrow> string \<Rightarrow> transfer"
  run_curl :: "nat \<Rightarrow> string \<Rightarrow> proc"
  run_wget :: "nat \<Rightarrow> string \<Rightarrow> proc"
  requests_head :: "nat \<Rightarrow> string \<Rightarrow> head"
  requests_range :: "nat \<Rightarrow> string \<Rightarrow> int \<Rightarrow> int \<Rightarrow> bytes option"
  browser_get :: "nat \<Rightarrow> string \<Rightarrow> bytes option option"
  curl_version :: "nat \<Rightarrow> int option"
  curl_rss :: "nat \<Rightarrow> fetched"
  requests_feed :: "nat \<Rightarrow> string option"
  requests_feed_range :: "nat \<Rightarrow> (int \<times> string) option"
  feedparser_parse :: "string \<Rightarrow> item list option"
  fromstring :: "string \<Rightarrow> string + element"
  clock :: "nat \<Rightarrow> clock_reading"

datatype transport =
  Requests | Curl | Wget | Head | Range | Browser | CurlProbe | CurlRss | Feed | FeedRange

datatype log_line =
    Downloaded string string nat "string option"   \<comment> \<open>time, file name, size, strategy\<close>
  | Failed string string string                    \<comment> \<open>time, URL, file name\<close>

datatype 'a jfile = Absent | Unreadable | Holds 'a

record cache =
  cached_items :: "string set"
  last_check_time :: "string option"
  last_updated :: string

record retry_item =
  item_url :: string
  item_filename :: string
  item_company :: string
  item_date :: string
  item_timestamp :: string

record world =
  files :: "path \<rightharpoonup> bytes"
  tick :: nat
  calls :: "(transport \<times> string) list"
  download_log :: "log_line list"
  failed_log :: "log_line list"
  cache_files :: "path \<Rightarrow> cache jfile"
  retry_file :: "retry_item list jfile"

definition act :: "transport \<Rightarrow> string \<Rightarrow> world \<Rightarrow> world" where
  \<comment> \<open>one external action: it is recorded and the counter advances\<close>
  "act t u w = w\<lparr>tick := Suc (tick w), calls := calls w @ [(t, u)]\<rparr>"

definition tock :: "world \<Rightarrow> world" where
  \<comment> \<open>one reading of the clock was taken: the counter advances\<close>
  "tock w = w\<lparr>tick := Suc (tick w)\<rparr>"

definition exists :: "path \<Rightarrow> world \<Rightarrow> bool" where
  "exists p w = (files w p \<noteq> None)"

definition getsize :: "path \<Rightarrow> world \<Rightarrow> nat" where
  "getsize p w = (case files w p of None \<Rightarrow> 0 | Some b \<Rightarrow> length b)"

definition write_file :: "path \<Rightarrow> bytes \<Rightarrow> world \<Rightarrow> world" where
  "write_file p b w = w\<lparr>files := (files w)(p \<mapsto> b)\<rparr>"

definition remove :: "path \<Rightarrow> world \<Rightarrow> world" where
  "remove p w = w\<lparr>files := (files w)(p := None)\<rparr>"

definition left_behind :: "bytes option \<Rightarrow> path \<Rightarrow> world \<Rightarrow> world" where
  \<comment> \<open>what a child process left at its output path\<close>
  "left_behind eff p w = (case eff of None \<Rightarrow> w | Some b \<Rightarrow> write_file p b w)"

definition remove_if_exists :: "path \<Rightarrow> world \<Rightarrow> world" where
  \<comment> \<open>\<open>if os.path.exists(p): os.remove(p)\<close>\<close>
  "remove_if_exists p w = (if exists p w then remove p w else w)"

definition join_downloads :: "string \<Rightarrow> path" where
  \<comment> \<open>\<open>os.path.join("nse_downloads", filename)\<close>\<close>
  "join_downloads name = (if prefix ''/'' name then name else ''nse_downloads/'' @ name)"

definition get :: "item \<Rightarrow> string \<Rightarrow> string \<Rightarrow> string" where
  \<comment> \<open>\<open>d.get(key, default)\<close>\<close>
  "get d k dflt = (case d k of None \<Rightarrow> dflt | Some v \<Rightarrow> v)"

definition py_take :: "int \<Rightarrow> 'a list \<Rightarrow> 'a list" where
  \<comment> \<open>the slice \<open>xs[:n]\<close>\<close>
  "py_take n xs = (if n \<ge> 0 then take (nat n) xs else take (length xs - nat (- n)) xs)"

section \<open>Feed fetcher\<close>

definition accept_rss :: "fetched \<Rightarrow> string option" where
  \<comment> \<open>the checks both \<open>fetch_rss_with_curl\<close> make on the result of the child process\<close>
  "accept_rss r =
     (case r of
        FetchRaised \<Rightarrow> None
      | FetchExited returncode stdout \<Rightarrow>
          if returncode = 0 \<and> strip stdout \<noteq> [] then
            (let content = strip stdout
             in if sublist ''<rss'' content \<and> sublist ''</rss>'' content then Some content else None)
          else None)"

definition rss_url :: string where
  "rss_url = ''https://nsearchives.nseindia.com/content/RSS/Online_announcements.xml''"

definition complete_fetch_rss_with_curl :: "env \<Rightarrow> world \<Rightarrow> string option \<times> world" where
  "complete_fetch_rss_with_curl e w = (accept_rss (curl_rss e (tick w)), act CurlRss rss_url w)"

definition simple_fetch_rss_with_curl :: "env \<Rightarrow> world \<Rightarrow> string option \<times> world" where
  "simple_fetch_rss_with_curl e w =
     (let probe = curl_version e (tick w); w = act CurlProbe ''--version'' w
      in case probe of
           None \<Rightarrow> (None, w)
         | Some returncode \<Rightarrow>
             if returncode \<noteq> 0 then (None, w)
             else (accept_rss (curl_rss e (tick w)), act CurlRss rss_url w))"

section \<open>Feed parser (\<open>parse_rss_manually\<close>, the same in both monitors that have it)\<close>

definition match_decl :: "string \<Rightarrow> string option" where
  \<comment> \<open>a match of \<open><\?xml[^>]*\?>\<close> at the start of the text: what follows the match\<close>
  "match_decl s =
     (if prefix ''<?xml'' s then
        (let r = drop 5 s;
             seg = takeWhile (\<lambda>c. c \<noteq> CHR ''>'') r;
             rest = dropWhile (\<lambda>c. c \<noteq> CHR ''>'') r
         in if rest \<noteq> [] \<and> seg \<noteq> [] \<and> last seg = CHR ''?'' then Some (tl rest) else None)
      else None)"

function remove_decls :: "string \<Rightarrow> string" where
  \<comment> \<open>\<open>re.sub(r'<\?xml[^>]*\?>', '', s)\<close>\<close>
  "remove_decls [] = []"
| "remove_decls (c # cs) =
     (case match_decl (c # cs) of
        Some rest \<Rightarrow> remove_decls rest
      | None \<Rightarrow> c # remove_decls cs)"
  by pat_completeness auto
termination
proof (relation "measure length")
  show "wf (measure length)" by simp
next
  fix c cs rest assume "match_decl (c # cs) = Some rest"
  then have "rest = tl (dropWhile (\<lambda>c. c \<noteq> CHR ''>'') (drop 5 (c # cs)))"
    by (auto simp: match_decl_def Let_def split: if_splits)
  moreover have "length (tl (dropWhile (\<lambda>c. c \<noteq> CHR ''>'') (drop 5 (c # cs)))) \<le> length cs"
    using length_dropWhile_le[of "\<lambda>c. c \<noteq> CHR ''>''" "drop 5 (c # cs)"] by simp
  ultimately show "(rest, c # cs) \<in> measure length" by simp
next
  fix c cs assume "match_decl (c # cs) = None"
  show "(cs, c # cs) \<in> measure length" by simp
qed

fun descendants :: "element \<Rightarrow> element list" where
  \<comment> \<open>the elements below a node, in document order\<close>
  "descendants (Element t x cs) = concat (map (\<lambda>c. c # descendants c) cs)"

definition findall_item :: "element \<Rightarrow> element list" where
  \<comment> \<open>\<open>root.findall('.//item')\<close>\<close>
  "findall_item root = filter (\<lambda>el. tag el = ''item'') (descendants root)"

definition whitelist :: "string list" where
  "whitelist = [''title'', ''link'', ''description'', ''pubDate'']"

fun item_fields :: "element list \<Rightarrow> item \<Rightarrow> item" where
  \<comment> \<open>the loop over the children of one item element\<close>
  "item_fields [] item_data = item_data"
| "item_fields (child # rest) item_data =
     item_fields rest
       (if tag child \<in> set whitelist
        then item_data(tag child \<mapsto> strip (case el_text child of None \<Rightarrow> [] | Some t \<Rightarrow> t))
        else item_data)"

fun collect_items :: "element list \<Rightarrow> item list" where
  \<comment> \<open>the loop over the item elements\<close>
  "collect_items [] = []"
| "collect_items (el # rest) =
     (let item_data = item_fields (children el) Map.empty
      in if get item_data ''title'' [] \<noteq> [] then item_data # collect_items rest
         else collect_items rest)"

datatype report = Parsing_content | Parsed_items nat | XML_parse_error string

definition parse_rss_manually :: "env \<Rightarrow> string \<Rightarrow> item list \<times> report list" where
  \<comment> \<open>the result and the lines printed\<close>
  "parse_rss_manually e xml_content =
     (case fromstring e (remove_decls xml_content) of
        Inl err \<Rightarrow> ([], [Parsing_content, XML_parse_error err])
      | Inr root \<Rightarrow>
          (let items = collect_items (findall_item root)
           in (items, [Parsing_content, Parsed_items (length items)])))"


section \<open>Download strategies of \<open>CompleteNSEMonitor\<close>\<close>

definition log_download :: "env \<Rightarrow> string \<Rightarrow> nat \<Rightarrow> string option \<Rightarrow> world \<Rightarrow> world" where
  \<comment> \<open>one line appended to \<open>download_log.txt\<close>\<close>
  "log_download e name file_size strategy w =
     tock (w\<lparr>download_log := download_log w @
                [Downloaded (plain (clock e (tick w))) name file_size strategy]\<rparr>)"

definition complete_download_with_requests ::
  "env \<Rightarrow> string \<Rightarrow> path \<Rightarrow> string \<Rightarrow> world \<Rightarrow> bool \<times> world" where
  "complete_download_with_requests e file_url filepath filename w =
     (let r = requests_get e (tick w) file_url; w = act Requests file_url w
      in case r of
           Refused \<Rightarrow> (False, remove_if_exists filepath w)
         | Broken b \<Rightarrow> (False, remove_if_exists filepath (write_file filepath b w))
         | Done b \<Rightarrow>
             (let w = write_file filepath b w; file_size = getsize filepath w
              in (True, log_download e filename file_size (Some ''requests'') w)))"

definition complete_download_with_tool ::
  "proc \<Rightarrow> string \<Rightarrow> env \<Rightarrow> path \<Rightarrow> string \<Rightarrow> world \<Rightarrow> bool \<times> world" where
  \<comment> \<open>what \<open>_download_with_curl\<close> and \<open>_download_with_wget\<close> do with the result of the child process\<close>
  "complete_download_with_tool r strategy e filepath filename w =
     (case r of
        TimedOut eff \<Rightarrow> (False, remove_if_exists filepath (left_behind eff filepath w))
      | NotStarted \<Rightarrow> (False, remove_if_exists filepath w)
      | Exited returncode eff \<Rightarrow>
          (let w = left_behind eff filepath w
           in if returncode = 0 \<and> exists filepath w then
                (let file_size = getsize filepath w
                 in if file_size > 0 then (True, log_download e filename file_size (Some strategy) w)
                    else (False, remove filepath w))
              else (False, w)))"

definition complete_download_with_curl ::
  "env \<Rightarrow> string \<Rightarrow> path \<Rightarrow> string \<Rightarrow> world \<Rightarrow> bool \<times> world" where
  "complete_download_with_curl e file_url filepath filename w =
     complete_download_with_tool (run_curl e (tick w) file_url) ''curl'' e filepath filename
       (act Curl file_url w)"

definition complete_download_with_wget ::
  "env \<Rightarrow> string \<Rightarrow> path \<Rightarrow> string \<Rightarrow> world \<Rightarrow> bool \<times> world" where
  "complete_download_with_wget e file_url filepath filename w =
     complete_download_with_tool (run_wget e (tick w) file_url) ''wget'' e filepath filename
       (act Wget file_url w)"

definition complete_smart_download_file :: "env \<Rightarrow> string \<Rightarrow> string \<Rightarrow> world \<Rightarrow> bool \<times> world" where
  "complete_smart_download_file e file_url filename w =
     (if \<not> (suffix ''.pdf'' file_url \<or> suffix ''.xml'' file_url) then (False, w)
      else
        (let filepath = join_downloads filename
         in if exists filepath w then (True, w)
            else
              (let (success, w) = complete_download_with_requests e file_url filepath filename w
               in if success then (True, w)
                  else
                    (let (success, w) = complete_download_with_curl e file_url filepath filename w
                     in if success then (True, w)
                        else
                          (let (success, w) = complete_download_with_wget e file_url filepath filename w
                           in if success then (True, w)
                              else (False,
                                tock (w\<lparr>failed_log := failed_log w @
                                   [Failed (plain (clock e (tick w))) file_url filename]\<rparr>)))))))"

section \<open>Download of \<open>SimpleNSECurlMonitor\<close>\<close>

definition simple_download_pdf_with_curl :: "env \<Rightarrow> string \<Rightarrow> string \<Rightarrow> world \<Rightarrow> bool \<times> world" where
  "simple_download_pdf_with_curl e pdf_url filename w =
     (if \<not> suffix ''.pdf'' pdf_url then (False, w)
      else
        (let filepath = join_downloads filename
         in if exists filepath w then (True, w)
            else
              (let r = run_curl e (tick w) pdf_url; w = act Curl pdf_url w
               in case r of
                    TimedOut eff \<Rightarrow> (False, remove_if_exists filepath (left_behind eff filepath w))
                  | NotStarted \<Rightarrow> (False, w)
                  | Exited returncode eff \<Rightarrow>
                      (let w = left_behind eff filepath w
                       in if returncode = 0 \<and> exists filepath w then
                            (let file_size = getsize filepath w
                             in if file_size > 0 then (True, log_download e filename file_size None w)
                                else (False, remove filepath w))
                          else (False, w)))))"

section \<open>\<open>NSEDownloader\<close>\<close>

fun method1_requests_with_retry :: "env \<Rightarrow> string \<Rightarrow> path \<Rightarrow> nat \<Rightarrow> world \<Rightarrow> bool \<times> world" where
  \<comment> \<open>the fourth argument is \<open>max_retries\<close>, the attempts left\<close>
  "method1_requests_with_retry e url filename 0 w = (False, w)"
| "method1_requests_with_retry e url filename (Suc n) w =
     (let r = requests_get e (tick w) url; w = act Requests url w
      in case r of
           Refused \<Rightarrow> method1_requests_with_retry e url filename n w
         | Broken b \<Rightarrow> method1_requests_with_retry e url filename n (write_file filename b w)
         | Done b \<Rightarrow> (True, write_file filename b w))"

definition method_subprocess :: "proc \<Rightarrow> path \<Rightarrow> world \<Rightarrow> bool \<times> world" where
  \<comment> \<open>what \<open>method2_curl_subprocess\<close> and \<open>method3_wget_subprocess\<close> do with the result\<close>
  "method_subprocess r filename w =
     (case r of
        TimedOut eff \<Rightarrow> (False, left_behind eff filename w)
      | NotStarted \<Rightarrow> (False, w)
      | Exited returncode eff \<Rightarrow>
          (let w = left_behind eff filename w
           in (returncode = 0 \<and> exists filename w, w)))"

definition method2_curl_subprocess :: "env \<Rightarrow> string \<Rightarrow> path \<Rightarrow> world \<Rightarrow> bool \<times> world" where
  "method2_curl_subprocess e url filename w =
     method_subprocess (run_curl e (tick w) url) filename (act Curl url w)"

definition method3_wget_subprocess :: "env \<Rightarrow> string \<Rightarrow> path \<Rightarrow> world \<Rightarrow> bool \<times> world" where
  "method3_wget_subprocess e url filename w =
     method_subprocess (run_wget e (tick w) url) filename (act Wget url w)"

definition part_name :: "path \<Rightarrow> nat \<Rightarrow> path" where
  \<comment> \<open>\<open>f"{filename}.part{i}"\<close> for a one-digit \<open>i\<close>\<close>
  "part_name filename i = filename @ ''.part'' @ [char_of (48 + i)]"

definition chunk_range :: "int \<Rightarrow> nat \<Rightarrow> nat \<Rightarrow> int \<times> int" where
  \<comment> \<open>\<open>start\<close> and \<open>end\<close> of the byte range of part \<open>i\<close>\<close>
  "chunk_range file_size num_threads i =
     (let chunk_size = file_size div int num_threads;
          start = int i * chunk_size
      in (start, if i < num_threads - 1 then start + chunk_size - 1 else file_size - 1))"

definition method4_threaded_download :: "env \<Rightarrow> string \<Rightarrow> path \<Rightarrow> nat \<Rightarrow> world \<Rightarrow> bool \<times> world" where
  \<comment> \<open>the workers all run to their end before the result is looked at, so the outcome is
      that of running them in turn; they share one reading of the environment\<close>
  "method4_threaded_download e url filename num_threads w =
     (let h = requests_head e (tick w) url; w = act Head url w
      in case h of
           HeadRaised \<Rightarrow> (False, w)
         | NoLength \<Rightarrow> method1_requests_with_retry e url filename 3 w
         | Length file_size \<Rightarrow>
             (let t = tick w;
                  parts = map (\<lambda>i. case chunk_range file_size num_threads i of
                                     (start, stop) \<Rightarrow> requests_range e t url start stop)
                              [0..<num_threads];
                  w = fold (\<lambda>i w. act Range url w) [0..<num_threads] w;
                  w = fold (\<lambda>i w. left_behind (parts ! i) (part_name filename i) w) [0..<num_threads] w
              in if None \<in> set parts then (False, w)
                 else
                   (let w = write_file filename (concat (map the parts)) w;
                        w = fold (\<lambda>i w. remove (part_name filename i) w) [0..<num_threads] w
                    in (True, w))))"

definition method5_browser_automation :: "env \<Rightarrow> string \<Rightarrow> path \<Rightarrow> world \<Rightarrow> bool \<times> world" where
  "method5_browser_automation e url filename w =
     (let r = browser_get e (tick w) url; w = act Browser url w
      in case r of
           None \<Rightarrow> (False, w)
         | Some eff \<Rightarrow> (let w = left_behind eff filename w in (exists filename w, w)))"

definition run_method :: "env \<Rightarrow> string \<Rightarrow> string \<Rightarrow> path \<Rightarrow> world \<Rightarrow> bool \<times> world" where
  \<comment> \<open>the \<open>if\<close>/\<open>elif\<close> chain inside the loop of \<open>smart_download\<close>\<close>
  "run_method e method url filename w =
     (if method = ''requests'' then method1_requests_with_retry e url filename 3 w
      else if method = ''curl'' then method2_curl_subprocess e url filename w
      else if method = ''wget'' then method3_wget_subprocess e url filename w
      else if method = ''threaded'' then method4_threaded_download e url filename 4 w
      else if method = ''browser'' then method5_browser_automation e url filename w
      else (False, w))"

fun try_methods :: "env \<Rightarrow> string \<Rightarrow> path \<Rightarrow> string list \<Rightarrow> world \<Rightarrow> bool \<times> world" where
  \<comment> \<open>the loop of \<open>smart_download\<close>\<close>
  "try_methods e url filename [] w = (False, w)"
| "try_methods e url filename (method # rest) w =
     (let (success, w) = run_method e method url filename w
      in if success then (True, w)
         else try_methods e url filename rest (remove_if_exists filename w))"

definition smart_download :: "env \<Rightarrow> string \<Rightarrow> path \<Rightarrow> string list option \<Rightarrow> world \<Rightarrow> bool \<times> world" where
  "smart_download e url filename methods w =
     try_methods e url filename
       (case methods of None \<Rightarrow> [''requests'', ''curl'', ''wget'', ''threaded''] | Some ms \<Rightarrow> ms) w"


section \<open>The monitors\<close>

record monitor =
  max_items :: int
  download_pdfs :: bool
  seen_items :: "string set"

definition save_cache :: "path \<Rightarrow> bool \<Rightarrow> env \<Rightarrow> monitor \<Rightarrow> world \<Rightarrow> world" where
  \<comment> \<open>the cache file is replaced; only \<open>IncrementalNSEMonitor\<close> writes \<open>last_check_time\<close>,
      from a reading of the clock of its own, taken before the one for \<open>last_updated\<close>\<close>
  "save_cache cache_file with_check_time e mon w =
     (if with_check_time then
        (let check_time = iso (clock e (tick w)); w = tock w;
             updated = iso (clock e (tick w)); w = tock w
         in w\<lparr>cache_files := (cache_files w)
               (cache_file := Holds \<lparr>cached_items = seen_items mon,
                                     last_check_time = Some check_time,
                                     last_updated = updated\<rparr>)\<rparr>)
      else
        (let updated = iso (clock e (tick w)); w = tock w
         in w\<lparr>cache_files := (cache_files w)
               (cache_file := Holds \<lparr>cached_items = seen_items mon,
                                     last_check_time = None,
                                     last_updated = updated\<rparr>)\<rparr>))"

definition load_cache :: "path \<Rightarrow> monitor \<Rightarrow> world \<Rightarrow> monitor" where
  "load_cache cache_file mon w =
     (case cache_files w cache_file of
        Holds c \<Rightarrow> mon\<lparr>seen_items := cached_items c\<rparr>
      | _ \<Rightarrow> mon)"

definition item_id_of :: "item \<Rightarrow> string" where
  \<comment> \<open>\<open>f"{item.get('title', '')}-{item.get('pubDate', '')}"\<close>, in both \<open>check_announcements\<close>\<close>
  "item_id_of item = get item ''title'' [] @ ''-'' @ get item ''pubDate'' []"

fun check_loop ::
  "(monitor \<Rightarrow> item \<Rightarrow> world \<Rightarrow> world) \<Rightarrow> item list \<Rightarrow> monitor \<Rightarrow> nat \<Rightarrow> world
   \<Rightarrow> monitor \<times> nat \<times> world" where
  \<comment> \<open>the loop over \<open>latest_items\<close>, the same text in both \<open>check_announcements\<close>; the first
      argument is \<open>process_announcement\<close> with \<open>is_new=True\<close>\<close>
  "check_loop process [] mon new_count w = (mon, new_count, w)"
| "check_loop process (item # rest) mon new_count w =
     (let item_id = item_id_of item
      in if item_id \<notin> seen_items mon then
           (let mon = mon\<lparr>seen_items := insert item_id (seen_items mon)\<rparr>;
                new_count = new_count + 1;
                w = process mon item w
            in check_loop process rest mon new_count w)
         else check_loop process rest mon new_count w)"

subsection \<open>\<open>CompleteNSEMonitor\<close>\<close>

definition complete_process_announcement :: "env \<Rightarrow> bool \<Rightarrow> monitor \<Rightarrow> item \<Rightarrow> world \<Rightarrow> world" where
  \<comment> \<open>\<open>create_safe_filename\<close> reads the clock at most twice, once for each of its texts; the
      counter moves past both readings\<close>
  "complete_process_announcement e is_new mon item w =
     (let file_link = get item ''link'' []
      in if download_pdfs mon \<and> is_new then
           (if suffix ''.pdf'' file_link \<or> suffix ''.xml'' file_link then
              (let date_now = clock e (tick w); w = tock w;
                   file_now = clock e (tick w); w = tock w;
                   filename = create_safe_filename (stamp_date date_now) (stamp_file file_now)
                                (get item ''title'' ''Unknown'') (get item ''pubDate'' []) file_link
               in snd (complete_smart_download_file e file_link filename w))
            else w)
         else w)"

definition complete_check_announcements :: "env \<Rightarrow> monitor \<Rightarrow> world \<Rightarrow> monitor \<times> world" where
  "complete_check_announcements e mon w =
     (let (rss_content, w) = complete_fetch_rss_with_curl e w
      in case rss_content of
           None \<Rightarrow> (mon, w)
         | Some content \<Rightarrow>
             if content = [] then (mon, w)
             else
               (let items = fst (parse_rss_manually e content)
                in if items = [] then (mon, w)
                   else
                     (let latest_items = py_take (max_items mon) items;
                          (mon, new_count, w) =
                             check_loop (complete_process_announcement e True) latest_items mon 0 w
                      in if new_count > 0
                         then (mon, save_cache ''nse_complete_cache.json'' False e mon w)
                         else (mon, w))))"

subsection \<open>\<open>SimpleNSECurlMonitor\<close>\<close>

definition py_isalnum :: "char \<Rightarrow> bool" where
  \<comment> \<open>\<open>str.isalnum()\<close> below code point 256; with the underscore, the class \<open>\w\<close>\<close>
  "py_isalnum c =
     (let n = of_char c :: nat
      in is_alnum c \<or> n = 170 \<or> n = 178 \<or> n = 179 \<or> n = 181 \<or> n = 185 \<or> n = 186
         \<or> (188 \<le> n \<and> n \<le> 190) \<or> (192 \<le> n \<and> n \<le> 214) \<or> (216 \<le> n \<and> n \<le> 246) \<or> 248 \<le> n)"

definition simple_process_announcement :: "env \<Rightarrow> bool \<Rightarrow> monitor \<Rightarrow> item \<Rightarrow> world \<Rightarrow> world" where
  "simple_process_announcement e is_new mon item w =
     (let pdf_link = get item ''link'' []
      in if download_pdfs mon \<and> is_new \<and> suffix ''.pdf'' pdf_link then
           (let company = replace_char CHR ''/'' ''_''
                            (replace_char CHR '' '' ''_'' (get item ''title'' ''Unknown''));
                pub_date = replace_char CHR '':'' []
                             (replace_char CHR '' '' ''_''
                               (replace_char CHR ''-'' [] (get item ''pubDate'' [])));
                filename = company @ ''_'' @ pub_date @ ''.pdf'';
                filename = filter (\<lambda>c. py_isalnum c \<or> c = CHR ''_'' \<or> c = CHR ''-'' \<or> c = CHR ''.'')
                             filename
            in snd (simple_download_pdf_with_curl e pdf_link filename w))
         else w)"

definition simple_check_announcements :: "env \<Rightarrow> int \<Rightarrow> monitor \<Rightarrow> world \<Rightarrow> monitor \<times> world" where
  \<comment> \<open>the second argument is the parameter \<open>max_items\<close>\<close>
  "simple_check_announcements e max_items_arg mon w =
     (let (rss_content, w) = simple_fetch_rss_with_curl e w
      in case rss_content of
           None \<Rightarrow> (mon, w)
         | Some content \<Rightarrow>
             if content = [] then (mon, w)
             else
               (let items = fst (parse_rss_manually e content)
                in if items = [] then (mon, w)
                   else
                     (let latest_items = py_take max_items_arg items;
                          (mon, new_count, w) =
                             check_loop (simple_process_announcement e True) latest_items mon 0 w
                      in if new_count > 0
                         then (mon, save_cache ''nse_simple_cache.json'' False e mon w)
                         else (mon, w))))"

subsection \<open>\<open>IncrementalNSEMonitor\<close>\<close>

definition generate_item_id :: "item \<Rightarrow> string" where
  "generate_item_id entry =
     get entry ''title'' [] @ ''-'' @ get entry ''published'' [] @ ''-'' @ get entry ''link'' []"

definition basename :: "path \<Rightarrow> string" where
  \<comment> \<open>\<open>os.path.basename\<close>\<close>
  "basename p = rev (takeWhile (\<lambda>c. c \<noteq> CHR ''/'') (rev p))"

fun download_method_requests :: "env \<Rightarrow> string \<Rightarrow> path \<Rightarrow> nat \<Rightarrow> world \<Rightarrow> bool \<times> world" where
  \<comment> \<open>\<open>_download_method_requests\<close>; the fourth argument counts the attempts left of \<open>range(3)\<close>\<close>
  "download_method_requests e pdf_url filepath 0 w = (False, w)"
| "download_method_requests e pdf_url filepath (Suc n) w =
     (let r = requests_get e (tick w) pdf_url; w = act Requests pdf_url w
      in case r of
           Refused \<Rightarrow> download_method_requests e pdf_url filepath n w
         | Broken b \<Rightarrow> download_method_requests e pdf_url filepath n (write_file filepath b w)
         | Done b \<Rightarrow>
             (let w = write_file filepath b w; file_size = getsize filepath w
              in (True, log_download e (basename filepath) file_size (Some ''requests'') w)))"

definition download_method_tool ::
  "proc \<Rightarrow> string \<Rightarrow> env \<Rightarrow> path \<Rightarrow> world \<Rightarrow> bool \<times> world" where
  \<comment> \<open>what \<open>_download_method_curl\<close> and \<open>_download_method_wget\<close> do with the result\<close>
  "download_method_tool r strategy e filepath w =
     (case r of
        TimedOut eff \<Rightarrow> (False, left_behind eff filepath w)
      | NotStarted \<Rightarrow> (False, w)
      | Exited returncode eff \<Rightarrow>
          (let w = left_behind eff filepath w
           in if returncode = 0 \<and> exists filepath w then
                (let file_size = getsize filepath w
                 in (True, log_download e (basename filepath) file_size (Some strategy) w))
              else (False, remove_if_exists filepath w)))"

definition download_method_curl :: "env \<Rightarrow> string \<Rightarrow> path \<Rightarrow> world \<Rightarrow> bool \<times> world" where
  "download_method_curl e pdf_url filepath w =
     download_method_tool (run_curl e (tick w) pdf_url) ''curl'' e filepath (act Curl pdf_url w)"

definition download_method_wget :: "env \<Rightarrow> string \<Rightarrow> path \<Rightarrow> world \<Rightarrow> bool \<times> world" where
  "download_method_wget e pdf_url filepath w =
     download_method_tool (run_wget e (tick w) pdf_url) ''wget'' e filepath (act Wget pdf_url w)"

definition download_pdf_with_smart_fallback :: "env \<Rightarrow> string \<Rightarrow> string \<Rightarrow> world \<Rightarrow> bool \<times> world" where
  "download_pdf_with_smart_fallback e pdf_url filename w =
     (if pdf_url = [] \<or> \<not> suffix ''.pdf'' pdf_url then (False, w)
      else
        (let filepath = join_downloads filename
         in if exists filepath w then (True, w)
            else
              (let (success, w) = download_method_requests e pdf_url filepath 3 w
               in if success then (True, w)
                  else
                    (let (success, w) = download_method_curl e pdf_url filepath w
                     in if success then (True, w)
                        else
                          (let (success, w) = download_method_wget e pdf_url filepath w
                           in if success then (True, w) else (False, w))))))"

definition incremental_print_announcement ::
  "env \<Rightarrow> bool \<Rightarrow> bool \<Rightarrow> monitor \<Rightarrow> item \<Rightarrow> world \<Rightarrow> world" where
  \<comment> \<open>\<open>print_announcement(entry, is_new, download_pdf)\<close>\<close>
  "incremental_print_announcement e is_new download_pdf mon entry w =
     (let pdf_link = get entry ''link'' ''No Link''
      in if download_pdf \<and> is_new \<and> pdf_link \<noteq> ''No Link'' then
           (let company_name =
                  replace_char CHR 0x5C ''_''
                    (replace_char CHR ''/'' ''_''
                      (replace_char CHR '' '' ''_'' (get entry ''title'' ''Unknown'')));
                pub_date =
                  replace_char CHR '','' []
                    (replace_char CHR '':'' []
                      (replace_char CHR '' '' ''_''
                        (replace_char CHR ''-'' [] (get entry ''published'' []))));
                safe_filename = company_name @ ''_'' @ pub_date @ ''.pdf'';
                safe_filename =
                  filter (\<lambda>c. py_isalnum c \<or> c = CHR ''.'' \<or> c = CHR ''_'' \<or> c = CHR ''-'')
                    safe_filename;
                (success, w) = download_pdf_with_smart_fallback e pdf_link safe_filename w
            in if \<not> success then
                 (let failed_item = \<lparr>item_url = pdf_link, item_filename = safe_filename,
                                     item_company = get entry ''title'' [],
                                     item_date = get entry ''published'' [],
                                     item_timestamp = iso (clock e (tick w))\<rparr>;
                      w = tock w;
                      retry_queue = (case retry_file w of Holds q \<Rightarrow> q | _ \<Rightarrow> [])
                  in w\<lparr>retry_file := Holds (retry_queue @ [failed_item])\<rparr>)
               else w)
         else w)"

fun method1_loop :: "env \<Rightarrow> item list \<Rightarrow> monitor \<Rightarrow> nat \<Rightarrow> world \<Rightarrow> monitor \<times> nat \<times> world" where
  \<comment> \<open>the loop over \<open>latest_entries\<close>\<close>
  "method1_loop e [] mon new_count w = (mon, new_count, w)"
| "method1_loop e (entry # rest) mon new_count w =
     (let item_id = generate_item_id entry
      in if item_id \<notin> seen_items mon then
           (let mon = mon\<lparr>seen_items := insert item_id (seen_items mon)\<rparr>;
                new_count = new_count + 1;
                w = incremental_print_announcement e True (download_pdfs mon) mon entry w
            in method1_loop e rest mon new_count w)
         else method1_loop e rest mon new_count w)"

definition method1_process_only_latest_items :: "env \<Rightarrow> monitor \<Rightarrow> world \<Rightarrow> monitor \<times> world" where
  \<comment> \<open>the content \<open>requests.get\<close> returned goes to \<open>feedparser.parse\<close> as it is\<close>
  "method1_process_only_latest_items e mon w =
     (let r = requests_feed e (tick w); w = act Feed rss_url w
      in case r of
           None \<Rightarrow> (mon, w)
         | Some content \<Rightarrow>
             (case feedparser_parse e content of
                None \<Rightarrow> (mon, w)
              | Some entries \<Rightarrow>
                  if entries = [] then (mon, w)
                  else
                    (let latest_entries = py_take (max_items mon) entries;
                         (mon, new_count, w) = method1_loop e latest_entries mon 0 w
                     in (mon, w))))"

fun rfind :: "string \<Rightarrow> string \<Rightarrow> nat option" where
  \<comment> \<open>\<open>s.rfind(sub)\<close>: where \<open>sub\<close> starts for the last time; \<open>None\<close> is Python's -1\<close>
  "rfind sub [] = (if sub = [] then Some 0 else None)"
| "rfind sub (c # cs) =
     (case rfind sub cs of
        Some i \<Rightarrow> Some (Suc i)
      | None \<Rightarrow> if prefix sub (c # cs) then Some 0 else None)"

fun method4_loop :: "env \<Rightarrow> item list \<Rightarrow> monitor \<Rightarrow> nat \<Rightarrow> world \<Rightarrow> monitor \<times> nat \<times> world" where
  \<comment> \<open>the loop over \<open>feed.entries\<close> in \<open>method4_http_range_requests\<close>; \<open>print_announcement\<close> is
      called without \<open>download_pdf\<close>, which is \<open>False\<close> then\<close>
  "method4_loop e [] mon new_count w = (mon, new_count, w)"
| "method4_loop e (entry # rest) mon new_count w =
     (let item_id = generate_item_id entry
      in if item_id \<notin> seen_items mon then
           (let mon = mon\<lparr>seen_items := insert item_id (seen_items mon)\<rparr>;
                new_count = new_count + 1;
                w = incremental_print_announcement e True False mon entry w
            in method4_loop e rest mon new_count w)
         else method4_loop e rest mon new_count w)"

definition method4_http_range_requests :: "env \<Rightarrow> monitor \<Rightarrow> world \<Rightarrow> monitor \<times> world" where
  "method4_http_range_requests e mon w =
     (let r = requests_feed_range e (tick w); w = act FeedRange rss_url w
      in case r of
           None \<Rightarrow> (mon, w)
         | Some (status_code, response_text) \<Rightarrow>
             if status_code = 206 then
               (let partial_xml =
                      (if \<not> sublist ''</rss>'' response_text then
                         (case rfind ''</item>'' response_text of
                            None \<Rightarrow> response_text
                          | Some last_complete_item \<Rightarrow>
                              take (last_complete_item + 7) response_text
                                @ [CHR 0x0A] @ ''</channel>'' @ [CHR 0x0A] @ ''</rss>'')
                       else response_text)
                in case feedparser_parse e partial_xml of
                     None \<Rightarrow> method1_process_only_latest_items e mon w
                   | Some entries \<Rightarrow>
                       if entries \<noteq> [] then
                         (let (mon, new_count, w) = method4_loop e entries mon 0 w in (mon, w))
                       else (mon, w))
             else method1_process_only_latest_items e mon w)"

definition smart_incremental_check :: "env \<Rightarrow> monitor \<Rightarrow> world \<Rightarrow> monitor \<times> world" where
  "smart_incremental_check e mon w =
     (let (mon, w) = method1_process_only_latest_items e mon w
      in (mon, save_cache ''nse_incremental_cache.json'' True e mon w))"

type_synonym downloader = "env \<Rightarrow> string \<Rightarrow> string \<Rightarrow> world \<Rightarrow> bool \<times> world"

definition incremental_method :: "string \<Rightarrow> downloader option" where
  \<comment> \<open>\<open>self.<name>(url, filename)\<close>: the methods of the class that take these two arguments;
      for every other name the expression raises\<close>
  "incremental_method name =
     map_of [(''download_pdf_with_smart_fallback'', download_pdf_with_smart_fallback),
             (''_download_method_requests'', \<lambda>e u p. download_method_requests e u p 3),
             (''_download_method_curl'', download_method_curl),
             (''_download_method_wget'', download_method_wget)] name"

fun retry_loop ::
  "env \<Rightarrow> retry_item list \<Rightarrow> retry_item list \<Rightarrow> retry_item list \<Rightarrow> world
   \<Rightarrow> world + (retry_item list \<times> retry_item list \<times> world)" where
  \<comment> \<open>the loop over \<open>retry_queue\<close>; \<open>Inl\<close> is an exception, with the world it left\<close>
  "retry_loop e [] successful_retries remaining_failures w =
     Inr (successful_retries, remaining_failures, w)"
| "retry_loop e (entry # rest) successful_retries remaining_failures w =
     (case incremental_method ''download_pdf'' of
        None \<Rightarrow> Inl w
      | Some download_pdf \<Rightarrow>
          (let (success, w) = download_pdf e (item_url entry) (item_filename entry) w
           in if success
              then retry_loop e rest (successful_retries @ [entry]) remaining_failures w
              else retry_loop e rest successful_retries (remaining_failures @ [entry]) w))"

definition retry_failed_downloads :: "env \<Rightarrow> world \<Rightarrow> world" where
  "retry_failed_downloads e w =
     (case retry_file w of
        Absent \<Rightarrow> w
      | Unreadable \<Rightarrow> w
      | Holds retry_queue \<Rightarrow>
          if retry_queue = [] then w
          else
            (case retry_loop e retry_queue [] [] w of
               Inl w \<Rightarrow> w
             | Inr (successful_retries, remaining_failures, w) \<Rightarrow>
                 w\<lparr>retry_file := Holds remaining_failures\<rparr>))"

section \<open>Sample values\<close>

definition sample_clock :: clock_reading where
  "sample_clock = \<lparr>iso = ''2025-08-09T20:27:19'', plain = ''2025-08-09 20:27:19'',
                    stamp_date = ''09Aug2025_202719'', stamp_file = ''20250809_202719''\<rparr>"

definition offline :: env where
  \<comment> \<open>an environment in which every external action fails\<close>
  "offline = \<lparr>requests_get = (\<lambda>t u. Refused), run_curl = (\<lambda>t u. NotStarted),
               run_wget = (\<lambda>t u. NotStarted), requests_head = (\<lambda>t u. HeadRaised),
               requests_range = (\<lambda>t u a b. None), browser_get = (\<lambda>t u. None),
               curl_version = (\<lambda>t. None), curl_rss = (\<lambda>t. FetchRaised),
               requests_feed = (\<lambda>t. None), requests_feed_range = (\<lambda>t. None),
               feedparser_parse = (\<lambda>s. Some []),
               fromstring = (\<lambda>s. Inl ''no element found''),
               clock = (\<lambda>t. sample_clock)\<rparr>"

definition empty_world :: world where
  "empty_world = \<lparr>files = Map.empty, tick = 0, calls = [], download_log = [], failed_log = [],
                   cache_files = (\<lambda>p. Absent), retry_file = Absent\<rparr>"

definition sample_body :: string where
  "sample_body = ''<rss><channel><title>NSE</title><item><title> EPL Limited </title><pubDate>08-Aug-2025 21:14:22</pubDate><link>https://nsearchives.nseindia.com/corporate/a.pdf</link><guid>1</guid></item><item><link>https://nsearchives.nseindia.com/corporate/b.pdf</link></item></channel></rss>''"

definition sample_feed :: string where
  \<comment> \<open>\<open>sample_body\<close> after its XML declaration\<close>
  "sample_feed = ''<?xml version='' @ [CHR 0x22] @ ''1.0'' @ [CHR 0x22] @ '' encoding=''
                   @ [CHR 0x22] @ ''UTF-8'' @ [CHR 0x22] @ ''?>'' @ sample_body"

definition sample_root :: element where
  \<comment> \<open>the tree of \<open>sample_body\<close>\<close>
  "sample_root =
     Element ''rss'' None
       [Element ''channel'' None
          [Element ''title'' (Some ''NSE'') [],
           Element ''item'' None
             [Element ''title'' (Some '' EPL Limited '') [],
              Element ''pubDate'' (Some ''08-Aug-2025 21:14:22'') [],
              Element ''link'' (Some ''https://nsearchives.nseindia.com/corporate/a.pdf'') [],
              Element ''guid'' (Some ''1'') []],
           Element ''item'' None
             [Element ''link'' (Some ''https://nsearchives.nseindia.com/corporate/b.pdf'') []]]]"

definition online :: env where
  \<comment> \<open>an environment in which the feed and every transfer arrive\<close>
  "online = offline\<lparr>requests_get := (\<lambda>t u. Done ''%PDF-1.4 body''),
                     run_curl := (\<lambda>t u. Exited 0 (Some ''%PDF-1.4 body'')),
                     run_wget := (\<lambda>t u. Exited 0 (Some ''%PDF-1.4 body'')),
                     curl_version := (\<lambda>t. Some 0),
                     curl_rss := (\<lambda>t. FetchExited 0 sample_feed),
                     fromstring := (\<lambda>s. if s = sample_body then Inr sample_root
                                          else Inl ''syntax error'')\<rparr>"

definition sample_item :: item where
  "sample_item = [''title'' \<mapsto> ''EPL Limited'', ''pubDate'' \<mapsto> ''08-Aug-2025 21:14:22'',
                  ''link'' \<mapsto> ''https://nsearchives.nseindia.com/corporate/a.pdf'']"

definition sample_entry :: item where
  "sample_entry = [''title'' \<mapsto> ''EPL Limited'', ''published'' \<mapsto> ''08-Aug-2025 21:14:22'',
                   ''link'' \<mapsto> ''https://nsearchives.nseindia.com/corporate/a.pdf'']"

definition sample_url :: string where
  "sample_url = ''https://nsearchives.nseindia.com/corporate/a.pdf''"


definition flaky :: env where
  \<comment> \<open>the server refuses the client and cuts both tools off after the first bytes\<close>
  "flaky = offline\<lparr>run_curl := (\<lambda>t u. Exited 28 (Some ''%PDF-1.4 cut'')),
                    run_wget := (\<lambda>t u. Exited 4 (Some ''%PDF''))\<rparr>"

definition curl_only :: env where
  \<comment> \<open>the server refuses the client and serves curl\<close>
  "curl_only = offline\<lparr>run_curl := (\<lambda>t u. Exited 0 (Some ''%PDF-1.4 body''))\<rparr>"

definition sample_monitor :: monitor where
  "sample_monitor = \<lparr>max_items = 20, download_pdfs = True, seen_items = {}\<rparr>"

definition sample_retry :: retry_item where
  "sample_retry = \<lparr>item_url = sample_url, item_filename = ''EPL_Limited_08Aug2025_211422.pdf'',
                    item_company = ''EPL Limited'', item_date = ''08-Aug-2025 21:14:22'',
                    item_timestamp = ''2025-08-09T20:27:19''\<rparr>"

definition queued_world :: world where
  \<comment> \<open>a world in which one failed download waits in the retry queue\<close>
  "queued_world = empty_world\<lparr>retry_file := Holds [sample_retry]\<rparr>"

definition seen_monitor :: monitor where
  \<comment> \<open>a monitor that has seen the record of \<open>sample_root\<close>\<close>
  "seen_monitor = \<lparr>max_items = 20, download_pdfs = True,
                     seen_items = {''EPL Limited-08-Aug-2025 21:14:22''}\<rparr>"

definition old_cache :: cache where
  "old_cache = \<lparr>cached_items = {''EPL Limited-08-Aug-2025 21:14:22''}, last_check_time = None,
                 last_updated = ''2025-08-09T20:00:00''\<rparr>"

definition cached_world :: world where
  \<comment> \<open>a world in which an earlier cycle wrote the cache of \<open>CompleteNSEMonitor\<close>\<close>
  "cached_world =
     empty_world\<lparr>cache_files := (\<lambda>p. if p = ''nse_complete_cache.json'' then Holds old_cache
                                        else Absent)\<rparr>"

definition xml_item :: item where
  \<comment> \<open>the record of \<open>sample_item\<close> once more, with the XML rendering of the document as its link\<close>
  "xml_item = sample_item(''link'' \<mapsto> ''https://nsearchives.nseindia.com/corporate/a.xml'')"

definition xml_entry :: item where
  "xml_entry = sample_entry(''link'' \<mapsto> ''https://nsearchives.nseindia.com/corporate/a.xml'')"

definition cut_feed :: string where
  \<comment> \<open>the start of a feed, cut inside its second item\<close>
  "cut_feed = ''<rss><channel><item><title>EPL Limited</title><pubDate>08-Aug-2025 21:14:22</pubDate><link>https://nsearchives.nseindia.com/corporate/a.pdf</link></item><item><title>Yatra Onl''"

definition mended_feed :: string where
  \<comment> \<open>\<open>cut_feed\<close> up to the end of its first item, closed\<close>
  "mended_feed = ''<rss><channel><item><title>EPL Limited</title><pubDate>08-Aug-2025 21:14:22</pubDate><link>https://nsearchives.nseindia.com/corporate/a.pdf</link></item>''
                   @ [CHR 0x0A] @ ''</channel>'' @ [CHR 0x0A] @ ''</rss>''"

definition ranged :: env where
  \<comment> \<open>the server answers the range request with \<open>cut_feed\<close> and the plain request with
      \<open>mended_feed\<close>, whose one entry the feed parser returns\<close>
  "ranged = offline\<lparr>requests_feed := (\<lambda>t. Some mended_feed),
                     requests_feed_range := (\<lambda>t. Some (206, cut_feed)),
                     feedparser_parse := (\<lambda>s. if s = mended_feed then Some [sample_entry]
                                                else Some [])\<rparr>"

section \<open>Facts about the string functions\<close>


lemma set_spaces: "set (spaces_to_underscore s) \<subseteq> {c \<in> set s. \<not> is_space c} \<union> {CHR ''_''}"
  by (induction s rule: spaces_to_underscore.induct) auto

lemma set_collapse: "set (collapse_underscores s) = set s"
  by (induction s rule: collapse_underscores.induct) auto

lemma set_strip: "set (strip s) \<subseteq> set s"
  unfolding strip_def
  by (metis set_dropWhileD set_rev subsetI)

lemma collapse_append:
  "ys \<noteq> [] \<Longrightarrow> hd ys \<noteq> CHR ''_'' \<Longrightarrow>
   collapse_underscores (xs @ ys) = collapse_underscores xs @ collapse_underscores ys"
proof (induction xs rule: collapse_underscores.induct)
  case 1 then show ?case by simp
next
  case (2 a) then show ?case by (cases ys) auto
next
  case (3 a b cs) then show ?case by auto
qed

lemma file_ext_cases: "file_ext_of u = ''.pdf'' \<or> file_ext_of u = ''.xml''"
  by (simp add: file_ext_of_def)

lemma trim_append_ext:
  assumes "ext = ''.pdf'' \<or> ext = ''.xml''"
  shows "trim_underscores (xs @ ext) = dropWhile (\<lambda>c. c = CHR ''_'') xs @ ext"
proof -
  have a: "dropWhile (\<lambda>c. c = CHR ''_'') (xs @ ext) = dropWhile (\<lambda>c. c = CHR ''_'') xs @ ext"
    using assms by (induction xs) auto
  have b: "dropWhile (\<lambda>c. c = CHR ''_'') (rev (ys @ ext)) = rev (ys @ ext)" for ys
    using assms by auto
  show ?thesis unfolding trim_underscores_def a b by simp
qed

lemma collapse_ext:
  assumes "ext = ''.pdf'' \<or> ext = ''.xml''"
  shows "collapse_underscores (xs @ ext) = collapse_underscores xs @ ext"
  using assms by (auto simp: collapse_append)

lemma create_safe_filename_normal:
  "create_safe_filename sd sf company pub_date url =
     (let ext = file_ext_of url; pre = name_stem sd company pub_date;
          name = (if pre = [] then ''NSE_Announcement_'' @ sf else pre) @ ext
      in if length name > 200 then take 190 name @ ext else name)"
proof -
  let ?ext = "file_ext_of url"
  let ?body = "company_clean_of company @ ''_'' @ date_clean_of sd pub_date"
  have e: "?ext = ''.pdf'' \<or> ?ext = ''.xml''" by (rule file_ext_cases)
  have l: "length ?ext = 4" using e by auto
  have "trim_underscores (collapse_underscores (?body @ ?ext)) = name_stem sd company pub_date @ ?ext"
    by (simp only: collapse_ext[OF e] trim_append_ext[OF e] name_stem_def)
  then have t: "trim_underscores (collapse_underscores (company_clean_of company @ CHR ''_'' # date_clean_of sd pub_date @ ?ext))
     = name_stem sd company pub_date @ ?ext" by simp
  show ?thesis
    unfolding create_safe_filename_def Let_def
    apply (simp only: append_Cons append_Nil append_assoc t)
    using l by (cases "name_stem sd company pub_date = []") auto
qed


lemma in_dropWhile: "x \<in> set xs \<Longrightarrow> \<not> P x \<Longrightarrow> x \<in> set (dropWhile P xs)"
  by (induction xs) auto

lemma in_strip: "x \<in> set s \<Longrightarrow> \<not> is_space x \<Longrightarrow> x \<in> set (strip s)"
  unfolding strip_def by (simp add: in_dropWhile)

lemma in_spaces: "x \<in> set s \<Longrightarrow> \<not> is_space x \<Longrightarrow> x \<in> set (spaces_to_underscore s)"
  by (induction s rule: spaces_to_underscore.induct) auto

lemma in_replace_char: "x \<in> set s \<Longrightarrow> x \<noteq> c \<Longrightarrow> x \<in> set (replace_char c r s)"
  by (induction s) auto

lemma alnum_not_space: "is_alnum c \<Longrightarrow> \<not> is_space c"
  by (auto simp: is_alnum_def is_space_def Let_def)

lemma alnum_not_special:
  "is_alnum c \<Longrightarrow> c \<noteq> CHR ''_'' \<and> c \<noteq> CHR ''-'' \<and> c \<noteq> CHR '':'' \<and> c \<noteq> CHR '' ''
     \<and> c \<noteq> CHR ''/'' \<and> c \<noteq> CHR 0x5C \<and> c \<noteq> CHR ''.''"
  by (auto simp: is_alnum_def Let_def)

lemma company_clean_keeps: "c \<in> set company \<Longrightarrow> is_alnum c \<Longrightarrow> c \<in> set (company_clean_of company)"
  unfolding company_clean_of_def
  by (simp add: in_spaces in_strip alnum_not_space)

lemma date_clean_keeps:
  "pub_date \<noteq> [] \<Longrightarrow> c \<in> set pub_date \<Longrightarrow> is_alnum c \<Longrightarrow> c \<in> set (date_clean_of sd pub_date)"
  unfolding date_clean_of_def
  using alnum_not_special[of c] by (simp add: in_replace_char)

lemma name_stem_nonempty:
  assumes "pub_date \<noteq> []" "c \<in> set company \<union> set pub_date" "is_alnum c"
  shows "name_stem sd company pub_date \<noteq> []"
proof -
  have "c \<in> set (company_clean_of company @ ''_'' @ date_clean_of sd pub_date)"
    using assms company_clean_keeps date_clean_keeps by auto
  then have "c \<in> set (name_stem sd company pub_date)"
    unfolding name_stem_def using alnum_not_special[OF assms(3)]
    by (intro in_dropWhile) (simp_all only: set_collapse, simp)
  then show ?thesis by auto
qed

lemma name_stem_clock_free:
  "pub_date \<noteq> [] \<Longrightarrow> name_stem sd company pub_date = name_stem sd' company pub_date"
  by (simp add: name_stem_def date_clean_of_def)

lemma company_clean_chars: "set (company_clean_of company) \<subseteq> {c. is_alnum c} \<union> {CHR ''_''}"
proof -
  have "set (strip (filter (\<lambda>c. is_alnum c \<or> is_space c) company)) \<subseteq> {c. is_alnum c \<or> is_space c}"
    using set_strip by fastforce
  then show ?thesis unfolding company_clean_of_def using set_spaces by fastforce
qed

lemma date_clean_chars:
  "set (date_clean_of sd pub_date) \<subseteq> {c. is_alnum c} \<union> {CHR ''_''} \<union> set sd"
  by (auto simp: date_clean_of_def)

lemma name_stem_chars:
  "set (name_stem sd company pub_date) \<subseteq> {c. is_alnum c} \<union> {CHR ''_''} \<union> set sd"
proof -
  have "set (name_stem sd company pub_date)
        \<subseteq> set (company_clean_of company @ ''_'' @ date_clean_of sd pub_date)"
    unfolding name_stem_def using set_dropWhileD set_collapse by fastforce
  then show ?thesis using company_clean_chars[of company] date_clean_chars[of sd pub_date] by auto
qed

lemma safe_chars:
  assumes "c \<notin> set sd" "c \<notin> set sf" "c = CHR ''/'' \<or> c = CHR 0x5C"
  shows "c \<notin> set (create_safe_filename sd sf company pub_date url)"
proof -
  have na: "\<not> is_alnum c" using assms(3) alnum_not_special[of c] by auto
  have s: "c \<notin> set (name_stem sd company pub_date)"
    using name_stem_chars[of sd company pub_date] assms na by auto
  have e: "c \<notin> set (file_ext_of url)" using file_ext_cases[of url] assms(3) by auto
  have n: "c \<notin> set ''NSE_Announcement_''" using assms(3) by auto
  show ?thesis
    unfolding create_safe_filename_normal Let_def
    using s e n assms(2) by (auto dest: in_set_takeD)
qed

lemma ends_with_ext: "suffix (file_ext_of url) (create_safe_filename sd sf company pub_date url)"
  unfolding create_safe_filename_normal Let_def by (simp add: suffix_def)

lemma length_bound: "length (create_safe_filename sd sf company pub_date url) \<le> 200"
  unfolding create_safe_filename_normal Let_def using file_ext_cases[of url] by auto

lemma clock_free:
  assumes "pub_date \<noteq> []" "c \<in> set company \<union> set pub_date" "is_alnum c"
  shows "create_safe_filename sd sf company pub_date url = create_safe_filename sd' sf' company pub_date url"
proof -
  have a: "name_stem sd company pub_date \<noteq> []" using name_stem_nonempty[OF assms] .
  have b: "name_stem sd' company pub_date = name_stem sd company pub_date"
    using name_stem_clock_free[OF assms(1)] .
  show ?thesis unfolding create_safe_filename_normal Let_def b using a by simp
qed


section \<open>C7: the file name sanitizer\<close>

text \<open>
  C7, as the source has it. For the inputs \<open>"EPL Limited"\<close>, \<open>"08-Aug-2025 21:14:22"\<close>,
  \<open>"x.pdf"\<close> the result is the same text at every reading of the clock, and so it is for
  every input with a non-empty date in which the title or the date has a letter or a
  digit. For every input, the result has no path separator when the clock's texts have
  none, ends in \<open>.xml\<close> when the URL does and in \<open>.pdf\<close> otherwise, and has at most
  200 characters.
\<close>

theorem create_safe_filename_properties:
  assumes "CHR ''/'' \<notin> set sd \<union> set sf" and "CHR 0x5C \<notin> set sd \<union> set sf"
  shows "create_safe_filename sd sf ''EPL Limited'' ''08-Aug-2025 21:14:22'' ''x.pdf''
           = ''EPL_Limited_08Aug2025_211422.pdf''
       \<and> (pub_date \<noteq> [] \<and> (\<exists>c \<in> set company \<union> set pub_date. is_alnum c) \<longrightarrow>
            create_safe_filename sd sf company pub_date file_url
              = create_safe_filename sd' sf' company pub_date file_url)
       \<and> CHR ''/'' \<notin> set (create_safe_filename sd sf company pub_date file_url)
       \<and> CHR 0x5C \<notin> set (create_safe_filename sd sf company pub_date file_url)
       \<and> suffix (if suffix ''.xml'' file_url then ''.xml'' else ''.pdf'')
            (create_safe_filename sd sf company pub_date file_url)
       \<and> length (create_safe_filename sd sf company pub_date file_url) \<le> 200"
proof -
  have fixed: "create_safe_filename sd sf ''EPL Limited'' ''08-Aug-2025 21:14:22'' ''x.pdf''
           = ''EPL_Limited_08Aug2025_211422.pdf''"
    by (simp add: create_safe_filename_def company_clean_of_def date_clean_of_def file_ext_of_def
        strip_def is_alnum_def is_space_def trim_underscores_def Let_def suffix_to_prefix)
  have ext: "file_ext_of file_url = (if suffix ''.xml'' file_url then ''.xml'' else ''.pdf'')"
    by (auto simp: file_ext_of_def suffix_def)
  have "suffix (file_ext_of file_url) (create_safe_filename sd sf company pub_date file_url)"
    by (rule ends_with_ext)
  then have sfx: "suffix (if suffix ''.xml'' file_url then ''.xml'' else ''.pdf'')
            (create_safe_filename sd sf company pub_date file_url)"
    by (simp only: ext)
  have s1: "CHR ''/'' \<notin> set (create_safe_filename sd sf company pub_date file_url)"
    using assms(1) by (intro safe_chars) auto
  have s2: "CHR 0x5C \<notin> set (create_safe_filename sd sf company pub_date file_url)"
    using assms(2) by (intro safe_chars) auto
  have det: "pub_date \<noteq> [] \<and> (\<exists>c \<in> set company \<union> set pub_date. is_alnum c) \<longrightarrow>
            create_safe_filename sd sf company pub_date file_url
              = create_safe_filename sd' sf' company pub_date file_url"
    using clock_free by blast
  show ?thesis using fixed det s1 s2 sfx length_bound by blast
qed

theorem create_safe_filename_properties_witness:
  "create_safe_filename ''09Aug2025_202719'' ''20250809_202719'' ''A/B  Co.'' ''09-Aug-2025'' ''http://h/a.xml''
     = ''AB_Co_09Aug2025.xml''
   \<and> create_safe_filename ''10Aug2025_000000'' ''20250810_000000'' ''A/B  Co.'' ''09-Aug-2025'' ''http://h/a.xml''
     = ''AB_Co_09Aug2025.xml''
   \<and> CHR ''/'' \<notin> set (create_safe_filename ''09Aug2025_202719'' ''20250809_202719'' ''A/B  Co.'' ''09-Aug-2025'' ''http://h/a.xml'')
   \<and> length (create_safe_filename ''09Aug2025_202719'' ''20250809_202719'' ''A/B  Co.'' ''09-Aug-2025'' ''http://h/a.xml'') \<le> 200"
proof -
  have h1: "CHR ''/'' \<notin> set ''09Aug2025_202719'' \<union> set ''20250809_202719''" by simp
  have h2: "CHR 0x5C \<notin> set ''09Aug2025_202719'' \<union> set ''20250809_202719''" by simp
  have v: "create_safe_filename ''09Aug2025_202719'' ''20250809_202719'' ''A/B  Co.'' ''09-Aug-2025'' ''http://h/a.xml''
     = ''AB_Co_09Aug2025.xml''"
    by (simp add: create_safe_filename_def company_clean_of_def date_clean_of_def file_ext_of_def
        strip_def is_alnum_def is_space_def trim_underscores_def Let_def suffix_to_prefix)
  have a: "''09-Aug-2025'' \<noteq> [] \<and> (\<exists>c \<in> set ''A/B  Co.'' \<union> set ''09-Aug-2025''. is_alnum c)"
    by (simp add: is_alnum_def)
  note t = create_safe_filename_properties [OF h1 h2, of "''09-Aug-2025''" "''A/B  Co.''"
        "''http://h/a.xml''" "''10Aug2025_000000''" "''20250810_000000''"]
  from a t [THEN conjunct2, THEN conjunct1] have "create_safe_filename ''09Aug2025_202719'' ''20250809_202719'' ''A/B  Co.'' ''09-Aug-2025'' ''http://h/a.xml''
     = create_safe_filename ''10Aug2025_000000'' ''20250810_000000'' ''A/B  Co.'' ''09-Aug-2025'' ''http://h/a.xml''"
    by (rule rev_mp)
  with t v show ?thesis by simp
qed

theorem create_safe_filename_clock_counterexample:
  "''-'' \<noteq> [] \<and>
   create_safe_filename ''09Aug2025_202719'' ''20250809_202719'' ''&'' ''-'' ''x.pdf''
     = ''NSE_Announcement_20250809_202719.pdf'' \<and>
   create_safe_filename ''09Aug2025_202720'' ''20250809_202720'' ''&'' ''-'' ''x.pdf''
     = ''NSE_Announcement_20250809_202720.pdf'' \<and>
   create_safe_filename ''09Aug2025_202719'' ''20250809_202719'' ''&'' ''-'' ''x.pdf''
     \<noteq> create_safe_filename ''09Aug2025_202720'' ''20250809_202720'' ''&'' ''-'' ''x.pdf''"
  by (simp add: create_safe_filename_def company_clean_of_def date_clean_of_def file_ext_of_def
      strip_def is_alnum_def is_space_def trim_underscores_def Let_def suffix_to_prefix)

section \<open>Facts about the sample values\<close>

lemma sample_feed_text:
  "strip sample_feed = sample_feed" "sublist ''<rss'' sample_feed" "sublist ''</rss>'' sample_feed"
  "sample_feed \<noteq> []"
proof -
  show "strip sample_feed = sample_feed"
    by (simp add: strip_def sample_feed_def sample_body_def is_space_def)
  show "sublist ''<rss'' sample_feed" "sublist ''</rss>'' sample_feed"
    unfolding sample_feed_def sample_body_def by code_simp+
  show "sample_feed \<noteq> []" by (simp add: sample_feed_def)
qed

lemma sample_feed_body: "remove_decls sample_feed = sample_body"
proof -
  have "match_decl sample_feed = Some sample_body"
    by (simp add: match_decl_def sample_feed_def Let_def)
  moreover have "remove_decls sample_body = sample_body"
    unfolding sample_body_def by (simp add: match_decl_def)
  moreover have "sample_feed = CHR ''<'' # tl sample_feed"
    by (simp add: sample_feed_def)
  ultimately show ?thesis
    by (metis remove_decls.simps(2) option.simps(5))
qed

lemma sample_fetch:
  "complete_fetch_rss_with_curl online w = (Some sample_feed, act CurlRss rss_url w)"
  using sample_feed_text
  by (simp add: complete_fetch_rss_with_curl_def accept_rss_def online_def offline_def Let_def)

lemma sample_items:
  "map (\<lambda>d. (d ''title'', d ''pubDate'', d ''link'', d ''guid''))
       (fst (parse_rss_manually online sample_feed))
     = [(Some ''EPL Limited'', Some ''08-Aug-2025 21:14:22'',
         Some ''https://nsearchives.nseindia.com/corporate/a.pdf'', None)]"
proof -
  have "fromstring online (remove_decls sample_feed) = Inr sample_root"
    by (simp add: sample_feed_body online_def offline_def)
  then show ?thesis
    by (simp add: parse_rss_manually_def sample_root_def findall_item_def
        whitelist_def get_def strip_def is_space_def Let_def)
qed

lemma sample_parse:
  "map item_id_of (fst (parse_rss_manually online sample_feed)) = [''EPL Limited-08-Aug-2025 21:14:22'']"
proof -
  have "fromstring online (remove_decls sample_feed) = Inr sample_root"
    by (simp add: sample_feed_body online_def offline_def)
  then show ?thesis
    by (simp add: parse_rss_manually_def sample_root_def findall_item_def
        whitelist_def get_def strip_def is_space_def item_id_of_def Let_def)
qed

lemma sample_clock_iso: "iso (clock online n) = ''2025-08-09T20:27:19''"
  by (simp add: online_def offline_def sample_clock_def)

lemma sample_latest:
  "item_id_of ` set (py_take 20 (fst (parse_rss_manually online sample_feed)))
     = {''EPL Limited-08-Aug-2025 21:14:22''}"
proof -
  have "length (fst (parse_rss_manually online sample_feed)) = 1"
    using sample_parse by (metis length_map length_Cons list.size(3) One_nat_def)
  then have "py_take 20 (fst (parse_rss_manually online sample_feed))
      = fst (parse_rss_manually online sample_feed)"
    by (simp add: py_take_def)
  then show ?thesis
    using sample_parse by (metis list.set_map list.simps(15) empty_set)
qed

section \<open>Facts about the loops over the records\<close>

lemma check_loop_seen:
  "seen_items (fst (check_loop P items mon n w)) = seen_items mon \<union> item_id_of ` set items"
  by (induction items arbitrary: mon n w) (auto simp: Let_def)

lemma check_loop_skip:
  "x \<in> seen_items mon \<Longrightarrow>
   check_loop P items mon n w = check_loop P (filter (\<lambda>i. item_id_of i \<noteq> x) items) mon n w"
  by (induction items arbitrary: mon n w) (auto simp: Let_def)

lemma method1_loop_seen:
  "seen_items (fst (method1_loop e entries mon n w)) = seen_items mon \<union> generate_item_id ` set entries"
  by (induction entries arbitrary: mon n w) (auto simp: Let_def)

lemma method1_loop_skip:
  "x \<in> seen_items mon \<Longrightarrow>
   method1_loop e entries mon n w
     = method1_loop e (filter (\<lambda>i. generate_item_id i \<noteq> x) entries) mon n w"
  by (induction entries arbitrary: mon n w) (auto simp: Let_def)

lemma method4_loop_seen:
  "seen_items (fst (method4_loop e entries mon n w)) = seen_items mon \<union> generate_item_id ` set entries"
  by (induction entries arbitrary: mon n w) (auto simp: Let_def)

section \<open>C9: what the feed fetchers accept\<close>

lemma accept_rss_Some:
  "accept_rss r = Some content \<Longrightarrow>
     sublist ''<rss'' content \<and> sublist ''</rss>'' content \<and> content \<noteq> []
     \<and> (\<exists>out. r = FetchExited 0 out \<and> content = strip out)"
  by (auto simp: accept_rss_def Let_def split: fetched.splits if_splits)

lemma accept_rss_None:
  "\<not> (sublist ''<rss'' (strip out) \<and> sublist ''</rss>'' (strip out)) \<Longrightarrow>
   accept_rss (FetchExited rc out) = None"
  by (auto simp: accept_rss_def Let_def)


lemma method1_takes_any_content:
  assumes "requests_feed e (tick w) = Some content" and "feedparser_parse e content = Some entries"
    and "entries \<noteq> []"
  shows "seen_items (fst (method1_process_only_latest_items e mon w))
           = seen_items mon \<union> generate_item_id ` set (py_take (max_items mon) entries)"
  using assms
  by (simp add: method1_process_only_latest_items_def Let_def case_prod_unfold method1_loop_seen)

lemma method4_mends_cut_content:
  assumes "requests_feed_range e (tick w) = Some (206, response_text)"
    and "\<not> sublist ''</rss>'' response_text"
    and "rfind ''</item>'' response_text = Some i"
    and "feedparser_parse e (take (i + 7) response_text @ [CHR 0x0A] @ ''</channel>'' @ [CHR 0x0A] @ ''</rss>'')
           = Some entries"
    and "entries \<noteq> []"
  shows "seen_items (fst (method4_http_range_requests e mon w))
           = seen_items mon \<union> generate_item_id ` set entries"
  using assms
  by (simp add: method4_http_range_requests_def Let_def case_prod_unfold method4_loop_seen)

lemma cut_feed_mended:
  "\<not> sublist ''</rss>'' cut_feed" "rfind ''</item>'' cut_feed = Some 146"
  "take 153 cut_feed @ [CHR 0x0A] @ ''</channel>'' @ [CHR 0x0A] @ ''</rss>'' = mended_feed"
proof -
  show "\<not> sublist ''</rss>'' cut_feed" unfolding cut_feed_def by code_simp
  show "rfind ''</item>'' cut_feed = Some 146" unfolding cut_feed_def by code_simp
  have "take 153 cut_feed = ''<rss><channel><item><title>EPL Limited</title><pubDate>08-Aug-2025 21:14:22</pubDate><link>https://nsearchives.nseindia.com/corporate/a.pdf</link></item>''"
    unfolding cut_feed_def by simp
  then show "take 153 cut_feed @ [CHR 0x0A] @ ''</channel>'' @ [CHR 0x0A] @ ''</rss>'' = mended_feed"
    unfolding mended_feed_def by (simp only:)
qed

lemma sample_entry_id:
  "generate_item_id sample_entry
     = ''EPL Limited-08-Aug-2025 21:14:22-https://nsearchives.nseindia.com/corporate/a.pdf''"
  by (simp add: generate_item_id_def sample_entry_def get_def)

lemma ranged_parse:
  "feedparser_parse ranged mended_feed = Some [sample_entry]"
  "feedparser_parse ranged (take (146 + 7) cut_feed @ [CHR 0x0A] @ ''</channel>'' @ [CHR 0x0A] @ ''</rss>'')
     = Some [sample_entry]"
proof -
  show p: "feedparser_parse ranged mended_feed = Some [sample_entry]"
    by (simp add: ranged_def offline_def)
  have "take (146 + 7) cut_feed @ [CHR 0x0A] @ ''</channel>'' @ [CHR 0x0A] @ ''</rss>'' = mended_feed"
    using cut_feed_mended(3) by simp
  then show "feedparser_parse ranged (take (146 + 7) cut_feed @ [CHR 0x0A] @ ''</channel>''
      @ [CHR 0x0A] @ ''</rss>'') = Some [sample_entry]"
    using p by (simp only:)
qed

lemma ranged_method4:
  "seen_items (fst (method4_http_range_requests ranged sample_monitor empty_world))
     = {''EPL Limited-08-Aug-2025 21:14:22-https://nsearchives.nseindia.com/corporate/a.pdf''}"
proof -
  have "seen_items (fst (method4_http_range_requests ranged sample_monitor empty_world))
     = seen_items sample_monitor \<union> generate_item_id ` set [sample_entry]"
    by (rule method4_mends_cut_content [OF _ cut_feed_mended(1) cut_feed_mended(2) ranged_parse(2)])
      (simp_all add: ranged_def offline_def)
  then show ?thesis by (simp add: sample_entry_id sample_monitor_def)
qed

text \<open>
  C9, as the source has it. \<open>fetch_rss_with_curl\<close>, in both monitors that have it, returns
  content only when the content holds \<open><rss\<close> and \<open></rss>\<close>; when the stripped output of
  the child process lacks one of them (an empty output lacks both) the result is
  \<open>None\<close>. The fetches of \<open>IncrementalNSEMonitor\<close> make no such test:
  \<open>method1_process_only_latest_items\<close> hands whatever content the request returned to the
  feed parser and goes through the entries the parser finds, and
  \<open>method4_http_range_requests\<close>, given partial content without \<open></rss>\<close>, cuts it after its
  last complete item, appends the closing tags and goes through the entries of that.
\<close>

theorem fetch_accepts_only_rss:
  "(fst (complete_fetch_rss_with_curl e w) = Some content \<longrightarrow>
      sublist ''<rss'' content \<and> sublist ''</rss>'' content)
   \<and> (fst (simple_fetch_rss_with_curl e w) = Some content \<longrightarrow>
      sublist ''<rss'' content \<and> sublist ''</rss>'' content)
   \<and> (curl_rss e (tick w) = FetchExited rc out
        \<and> \<not> (sublist ''<rss'' (strip out) \<and> sublist ''</rss>'' (strip out)) \<longrightarrow>
      fst (complete_fetch_rss_with_curl e w) = None)
   \<and> (curl_rss e (Suc (tick w)) = FetchExited rc out
        \<and> \<not> (sublist ''<rss'' (strip out) \<and> sublist ''</rss>'' (strip out)) \<longrightarrow>
      fst (simple_fetch_rss_with_curl e w) = None)
   \<and> (requests_feed e (tick w) = Some content \<and> feedparser_parse e content = Some entries
        \<and> entries \<noteq> [] \<longrightarrow>
      seen_items (fst (method1_process_only_latest_items e mon w))
        = seen_items mon \<union> generate_item_id ` set (py_take (max_items mon) entries))
   \<and> (requests_feed_range e (tick w) = Some (206, response_text)
        \<and> \<not> sublist ''</rss>'' response_text \<and> rfind ''</item>'' response_text = Some i
        \<and> feedparser_parse e (take (i + 7) response_text @ [CHR 0x0A] @ ''</channel>''
                                 @ [CHR 0x0A] @ ''</rss>'') = Some entries
        \<and> entries \<noteq> [] \<longrightarrow>
      seen_items (fst (method4_http_range_requests e mon w))
        = seen_items mon \<union> generate_item_id ` set entries)"
proof (intro conjI impI)
  assume "fst (complete_fetch_rss_with_curl e w) = Some content"
  then show "sublist ''<rss'' content" "sublist ''</rss>'' content"
    by (auto simp: complete_fetch_rss_with_curl_def dest: accept_rss_Some)
next
  assume a: "fst (simple_fetch_rss_with_curl e w) = Some content"
  then have "accept_rss (curl_rss e (tick (act CurlProbe ''--version'' w))) = Some content"
    by (auto simp: simple_fetch_rss_with_curl_def Let_def split: option.splits if_splits)
  then show "sublist ''<rss'' content" "sublist ''</rss>'' content"
    by (auto dest: accept_rss_Some)
next
  assume "curl_rss e (tick w) = FetchExited rc out
        \<and> \<not> (sublist ''<rss'' (strip out) \<and> sublist ''</rss>'' (strip out))"
  then show "fst (complete_fetch_rss_with_curl e w) = None"
    by (simp add: complete_fetch_rss_with_curl_def accept_rss_None)
next
  assume "curl_rss e (Suc (tick w)) = FetchExited rc out
        \<and> \<not> (sublist ''<rss'' (strip out) \<and> sublist ''</rss>'' (strip out))"
  then show "fst (simple_fetch_rss_with_curl e w) = None"
    by (simp add: simple_fetch_rss_with_curl_def Let_def act_def accept_rss_None split: option.splits)
next
  assume "requests_feed e (tick w) = Some content \<and> feedparser_parse e content = Some entries
        \<and> entries \<noteq> []"
  then show "seen_items (fst (method1_process_only_latest_items e mon w))
        = seen_items mon \<union> generate_item_id ` set (py_take (max_items mon) entries)"
    by (simp add: method1_takes_any_content)
next
  assume "requests_feed_range e (tick w) = Some (206, response_text)
        \<and> \<not> sublist ''</rss>'' response_text \<and> rfind ''</item>'' response_text = Some i
        \<and> feedparser_parse e (take (i + 7) response_text @ [CHR 0x0A] @ ''</channel>''
                                 @ [CHR 0x0A] @ ''</rss>'') = Some entries
        \<and> entries \<noteq> []"
  then show "seen_items (fst (method4_http_range_requests e mon w))
        = seen_items mon \<union> generate_item_id ` set entries"
    using method4_mends_cut_content [of e w response_text i entries mon] by blast
qed

theorem fetch_accepts_only_rss_witness:
  "fst (complete_fetch_rss_with_curl online empty_world) = Some sample_feed
   \<and> fst (simple_fetch_rss_with_curl online empty_world) = Some sample_feed
   \<and> sublist ''<rss'' sample_feed \<and> sublist ''</rss>'' sample_feed
   \<and> fst (complete_fetch_rss_with_curl
             (online\<lparr>curl_rss := (\<lambda>t. FetchExited 0 ''<html>Access denied</html>'')\<rparr>) empty_world) = None
   \<and> fst (simple_fetch_rss_with_curl
             (online\<lparr>curl_rss := (\<lambda>t. FetchExited 0 [])\<rparr>) empty_world) = None
   \<and> seen_items (fst (method1_process_only_latest_items ranged sample_monitor empty_world))
       = {''EPL Limited-08-Aug-2025 21:14:22-https://nsearchives.nseindia.com/corporate/a.pdf''}
   \<and> seen_items (fst (method4_http_range_requests ranged sample_monitor empty_world))
       = {''EPL Limited-08-Aug-2025 21:14:22-https://nsearchives.nseindia.com/corporate/a.pdf''}"
proof -
  note s = sample_feed_text(1) and m = sample_feed_text(2,3) and ne = sample_feed_text(4)
  have a: "fst (complete_fetch_rss_with_curl online empty_world) = Some sample_feed"
    by (simp add: sample_fetch)
  have b: "fst (simple_fetch_rss_with_curl online empty_world) = Some sample_feed"
    using s m ne by (simp add: simple_fetch_rss_with_curl_def accept_rss_def online_def offline_def
        empty_world_def act_def Let_def)
  have n1: "\<not> (sublist ''<rss'' (strip ''<html>Access denied</html>'')
              \<and> sublist ''</rss>'' (strip ''<html>Access denied</html>''))"
    by code_simp
  have n2: "\<not> (sublist ''<rss'' (strip []) \<and> sublist ''</rss>'' (strip []))"
    by (simp add: strip_def)
  have c1: "fst (complete_fetch_rss_with_curl
             (online\<lparr>curl_rss := (\<lambda>t. FetchExited 0 ''<html>Access denied</html>'')\<rparr>) empty_world) = None"
    using fetch_accepts_only_rss [of "online\<lparr>curl_rss := (\<lambda>t. FetchExited 0 ''<html>Access denied</html>'')\<rparr>"
        empty_world sample_feed 0 "''<html>Access denied</html>''"] n1
    by simp
  have c2: "fst (simple_fetch_rss_with_curl
             (online\<lparr>curl_rss := (\<lambda>t. FetchExited 0 [])\<rparr>) empty_world) = None"
    using fetch_accepts_only_rss [of "online\<lparr>curl_rss := (\<lambda>t. FetchExited 0 [])\<rparr>"
        empty_world sample_feed 0 "[]"] n2
    by simp
  have h1: "requests_feed ranged (tick empty_world) = Some mended_feed
      \<and> feedparser_parse ranged mended_feed = Some [sample_entry] \<and> [sample_entry] \<noteq> []"
    using ranged_parse(1) by (simp add: ranged_def offline_def)
  have h4: "requests_feed_range ranged (tick empty_world) = Some (206, cut_feed)
        \<and> \<not> sublist ''</rss>'' cut_feed \<and> rfind ''</item>'' cut_feed = Some 146
        \<and> feedparser_parse ranged (take (146 + 7) cut_feed @ [CHR 0x0A] @ ''</channel>''
                                 @ [CHR 0x0A] @ ''</rss>'') = Some [sample_entry]
        \<and> [sample_entry] \<noteq> []"
  proof -
    have "requests_feed_range ranged (tick empty_world) = Some (206, cut_feed)"
      by (simp add: ranged_def offline_def)
    then show ?thesis using cut_feed_mended(1,2) ranged_parse(2) by blast
  qed
  note t = fetch_accepts_only_rss [of ranged empty_world mended_feed _ _ "[sample_entry]"
      sample_monitor cut_feed 146]
  have d1: "seen_items (fst (method1_process_only_latest_items ranged sample_monitor empty_world))
       = seen_items sample_monitor \<union> generate_item_id ` set (py_take (max_items sample_monitor) [sample_entry])"
    using t h1 by blast
  have d4: "seen_items (fst (method4_http_range_requests ranged sample_monitor empty_world))
       = seen_items sample_monitor \<union> generate_item_id ` set [sample_entry]"
    using t h4 by blast
  show ?thesis
    using a b m c1 c2 d1 d4 by (simp add: sample_entry_id sample_monitor_def py_take_def)
qed

theorem fetch_without_markers_counterexample:
  "requests_feed_range ranged (tick empty_world) = Some (206, cut_feed)
   \<and> \<not> sublist ''</rss>'' cut_feed
   \<and> seen_items sample_monitor = {}
   \<and> seen_items (fst (method4_http_range_requests ranged sample_monitor empty_world))
       = {''EPL Limited-08-Aug-2025 21:14:22-https://nsearchives.nseindia.com/corporate/a.pdf''}"
  using cut_feed_mended(1) ranged_method4
  by (simp add: ranged_def offline_def sample_monitor_def)

section \<open>C8: the feed parser\<close>
lemma dom_item_fields: "dom (item_fields cs d) \<subseteq> dom d \<union> set whitelist"
proof (induction cs arbitrary: d)
  case Nil
  then show ?case by simp
next
  case (Cons child rest)
  show ?case
  proof (cases "tag child \<in> set whitelist")
    case True
    let ?d = "d(tag child \<mapsto> strip (case el_text child of None \<Rightarrow> [] | Some t \<Rightarrow> t))"
    have "dom (item_fields rest ?d) \<subseteq> dom ?d \<union> set whitelist" by (rule Cons.IH)
    moreover have "dom ?d \<subseteq> dom d \<union> set whitelist" using True by simp
    moreover have "item_fields (child # rest) d = item_fields rest ?d" using True by simp
    ultimately show ?thesis by (simp only:) blast
  next
    case False
    then show ?thesis using Cons.IH[of d] by simp
  qed
qed

lemma collect_items_filter:
  "collect_items els =
     filter (\<lambda>d. get d ''title'' [] \<noteq> []) (map (\<lambda>el. item_fields (children el) Map.empty) els)"
  by (induction els) (auto simp: Let_def)

lemma collect_items_sound:
  "d \<in> set (collect_items els) \<Longrightarrow>
     (\<exists>t. d ''title'' = Some t \<and> t \<noteq> []) \<and> dom d \<subseteq> set whitelist"
proof -
  assume "d \<in> set (collect_items els)"
  then obtain el where d: "d = item_fields (children el) Map.empty" and t: "get d ''title'' [] \<noteq> []"
    by (auto simp: collect_items_filter)
  from t have "\<exists>t. d ''title'' = Some t \<and> t \<noteq> []"
    by (auto simp: get_def split: option.splits)
  moreover have "dom d \<subseteq> set whitelist" using dom_item_fields[of "children el" Map.empty] d by simp
  ultimately show ?thesis by simp
qed


text \<open>
  C8. Every record \<open>parse_rss_manually\<close> returns has a non-empty title and no field besides
  title, link, description and pubDate; the records are those of the item elements, in
  document order, less the ones without a title. When the XML library rejects the
  payload the result is the empty list, and the error is printed.
\<close>

theorem parse_rss_manually_sound:
  "(\<forall>d \<in> set (fst (parse_rss_manually e xml_content)).
       (\<exists>t. d ''title'' = Some t \<and> t \<noteq> []) \<and> dom d \<subseteq> {''title'', ''link'', ''description'', ''pubDate''})
   \<and> (\<forall>err. fromstring e (remove_decls xml_content) = Inl err \<longrightarrow>
         parse_rss_manually e xml_content = ([], [Parsing_content, XML_parse_error err]))
   \<and> (\<forall>root. fromstring e (remove_decls xml_content) = Inr root \<longrightarrow>
         fst (parse_rss_manually e xml_content) =
           filter (\<lambda>d. get d ''title'' [] \<noteq> [])
             (map (\<lambda>el. item_fields (children el) Map.empty) (findall_item root)))"
proof (intro conjI ballI allI impI)
  fix d assume "d \<in> set (fst (parse_rss_manually e xml_content))"
  then have "d \<in> set (collect_items (case fromstring e (remove_decls xml_content) of Inl _ \<Rightarrow> [] | Inr root \<Rightarrow> findall_item root))"
    by (auto simp: parse_rss_manually_def Let_def split: sum.splits)
  from collect_items_sound[OF this]
  show "\<exists>t. d ''title'' = Some t \<and> t \<noteq> []" "dom d \<subseteq> {''title'', ''link'', ''description'', ''pubDate''}"
    by (auto simp: whitelist_def)
next
  fix err assume "fromstring e (remove_decls xml_content) = Inl err"
  then show "parse_rss_manually e xml_content = ([], [Parsing_content, XML_parse_error err])"
    by (simp add: parse_rss_manually_def)
next
  fix root assume "fromstring e (remove_decls xml_content) = Inr root"
  then show "fst (parse_rss_manually e xml_content) =
           filter (\<lambda>d. get d ''title'' [] \<noteq> [])
             (map (\<lambda>el. item_fields (children el) Map.empty) (findall_item root))"
    by (simp add: parse_rss_manually_def Let_def collect_items_filter)
qed


theorem parse_rss_manually_sound_witness:
  "map (\<lambda>d. (d ''title'', d ''pubDate'', d ''guid'')) (fst (parse_rss_manually online sample_feed))
     = [(Some ''EPL Limited'', Some ''08-Aug-2025 21:14:22'', None)]
   \<and> parse_rss_manually offline sample_feed
     = ([], [Parsing_content, XML_parse_error ''no element found''])"
proof -
  have v: "map (\<lambda>d. (d ''title'', d ''pubDate'', d ''guid'')) (fst (parse_rss_manually online sample_feed))
     = [(Some ''EPL Limited'', Some ''08-Aug-2025 21:14:22'', None)]"
  proof -
    have "fromstring online (remove_decls sample_feed) = Inr sample_root"
      by (simp add: sample_feed_body online_def offline_def)
    then show ?thesis
      by (simp add: parse_rss_manually_def sample_root_def findall_item_def
          whitelist_def get_def strip_def is_space_def Let_def)
  qed
  have f: "fromstring offline (remove_decls sample_feed) = Inl ''no element found''"
    by (simp add: offline_def)
  show ?thesis
    using parse_rss_manually_sound [of online sample_feed]
      parse_rss_manually_sound [of offline sample_feed] v f
    by simp
qed

section \<open>C6: the key a record is remembered by\<close>

lemma sample_item_fields:
  "get sample_item ''link'' [] = sample_url" "get sample_item ''title'' ''Unknown'' = ''EPL Limited''"
  "get sample_item ''pubDate'' [] = ''08-Aug-2025 21:14:22''"
  "item_id_of sample_item = ''EPL Limited-08-Aug-2025 21:14:22''"
  "get xml_item ''link'' [] = ''https://nsearchives.nseindia.com/corporate/a.xml''"
  "item_id_of xml_item = ''EPL Limited-08-Aug-2025 21:14:22''"
  by (simp_all add: sample_item_def xml_item_def sample_url_def get_def item_id_of_def)

lemma sample_name:
  "create_safe_filename ''09Aug2025_202719'' ''20250809_202719'' ''EPL Limited''
      ''08-Aug-2025 21:14:22'' sample_url = ''EPL_Limited_08Aug2025_211422.pdf''"
  "create_safe_filename ''09Aug2025_202719'' ''20250809_202719'' ''EPL Limited''
      ''08-Aug-2025 21:14:22'' ''https://nsearchives.nseindia.com/corporate/a.xml''
     = ''EPL_Limited_08Aug2025_211422.xml''"
  by (simp_all add: create_safe_filename_def company_clean_of_def date_clean_of_def file_ext_of_def
      strip_def is_alnum_def is_space_def trim_underscores_def Let_def suffix_to_prefix
      sample_url_def)

lemma sample_url_suffix: "suffix ''.pdf'' sample_url" "\<not> suffix ''.xml'' sample_url" "sample_url \<noteq> []"
  by (simp_all add: sample_url_def suffix_to_prefix)

lemma sample_download:
  "complete_process_announcement online True mon sample_item empty_world
     = empty_world\<lparr>files := [''nse_downloads/EPL_Limited_08Aug2025_211422.pdf'' \<mapsto> ''%PDF-1.4 body''],
                    tick := 4, calls := [(Requests, sample_url)],
                    download_log := [Downloaded ''2025-08-09 20:27:19''
                                       ''EPL_Limited_08Aug2025_211422.pdf'' 13 (Some ''requests'')]\<rparr>"
  if "download_pdfs mon" for mon
proof -
  have c: "clock online n = sample_clock" for n by (simp add: online_def offline_def)
  have r: "requests_get online n u = Done ''%PDF-1.4 body''" for n u
    by (simp add: online_def offline_def)
  show ?thesis
    using that sample_url_suffix
    by (simp add: complete_process_announcement_def sample_item_fields c sample_clock_def
        sample_name complete_smart_download_file_def complete_download_with_requests_def r
        log_download_def join_downloads_def exists_def getsize_def act_def tock_def write_file_def
        empty_world_def Let_def)
qed

text \<open>
  C6. Both \<open>check_announcements\<close> remember a record by its title and pubDate, joined by a
  hyphen; the link, which \<open>IncrementalNSEMonitor.generate_item_id\<close> puts into its key, is
  left out. Here the feed lists one announcement twice, first with its PDF and then
  with its XML rendering, which would be saved under a name of its own: the loop of
  \<open>CompleteNSEMonitor.check_announcements\<close> takes the second record for seen, counts one
  new record, requests the PDF alone and writes no second file, while
  \<open>generate_item_id\<close> tells the two records apart and its loop counts two.
\<close>

theorem link_left_out_of_key:
  "get xml_item ''link'' [] \<noteq> get sample_item ''link'' []
   \<and> item_id_of xml_item = item_id_of sample_item
   \<and> create_safe_filename ''09Aug2025_202719'' ''20250809_202719'' (get xml_item ''title'' ''Unknown'')
        (get xml_item ''pubDate'' []) (get xml_item ''link'' [])
       = ''EPL_Limited_08Aug2025_211422.xml''
   \<and> fst (snd (check_loop (complete_process_announcement online True) [sample_item, xml_item]
                  sample_monitor 0 empty_world)) = 1
   \<and> calls (snd (snd (check_loop (complete_process_announcement online True) [sample_item, xml_item]
                         sample_monitor 0 empty_world))) = [(Requests, sample_url)]
   \<and> files (snd (snd (check_loop (complete_process_announcement online True) [sample_item, xml_item]
                         sample_monitor 0 empty_world)))
        ''nse_downloads/EPL_Limited_08Aug2025_211422.xml'' = None
   \<and> generate_item_id xml_entry \<noteq> generate_item_id sample_entry
   \<and> fst (snd (method1_loop online [sample_entry, xml_entry] sample_monitor 0 empty_world)) = 2"
proof -
  have l: "check_loop (complete_process_announcement online True) [sample_item, xml_item]
             sample_monitor 0 empty_world
     = (sample_monitor\<lparr>seen_items := {''EPL Limited-08-Aug-2025 21:14:22''}\<rparr>, 1,
        complete_process_announcement online True
          (sample_monitor\<lparr>seen_items := {''EPL Limited-08-Aug-2025 21:14:22''}\<rparr>)
          sample_item empty_world)"
    by (simp add: sample_item_fields sample_monitor_def Let_def)
  have d: "download_pdfs (sample_monitor\<lparr>seen_items := {''EPL Limited-08-Aug-2025 21:14:22''}\<rparr>)"
    by (simp add: sample_monitor_def)
  have x: "get xml_item ''title'' ''Unknown'' = ''EPL Limited''"
    "get xml_item ''pubDate'' [] = ''08-Aug-2025 21:14:22''"
    by (simp_all add: xml_item_def sample_item_def get_def)
  have g: "generate_item_id xml_entry \<noteq> generate_item_id sample_entry"
    by (simp add: generate_item_id_def xml_entry_def sample_entry_def get_def)
  have m: "fst (snd (method1_loop online [sample_entry, xml_entry] sample_monitor 0 empty_world)) = 2"
    using g by (simp add: Let_def sample_monitor_def)
  show ?thesis
    unfolding l sample_download [OF d]
    using g m by (simp add: sample_item_fields x sample_name sample_url_def)
qed

section \<open>C1: a file that is already there\<close>




section \<open>C2: what a failed strategy leaves behind\<close>

text \<open>
  C2. \<open>CompleteNSEMonitor._download_with_curl\<close> removes the target when the child process
  raises and when it exits with status 0 and an empty file, but not when it exits with
  another status: the bytes curl had written stay at the target path while wget is
  tried. Here the server refuses the client and cuts curl off (exit status 28) and then
  wget (exit status 4): the download fails, the cut file stays, and the next call for
  the same name returns \<open>True\<close> without any transfer.
\<close>

theorem curl_failure_keeps_partial_file:
  "fst (complete_download_with_curl flaky sample_url ''nse_downloads/a.pdf'' ''a.pdf'' empty_world)
     = False
   \<and> files (snd (complete_download_with_curl flaky sample_url ''nse_downloads/a.pdf'' ''a.pdf''
                   empty_world)) ''nse_downloads/a.pdf'' = Some ''%PDF-1.4 cut''
   \<and> fst (complete_smart_download_file flaky sample_url ''a.pdf'' empty_world) = False
   \<and> files (snd (complete_smart_download_file flaky sample_url ''a.pdf'' empty_world))
        ''nse_downloads/a.pdf'' = Some ''%PDF''
   \<and> complete_smart_download_file online sample_url ''a.pdf''
        (snd (complete_smart_download_file flaky sample_url ''a.pdf'' empty_world))
      = (True, snd (complete_smart_download_file flaky sample_url ''a.pdf'' empty_world))"
proof -
  have s: "suffix ''.pdf'' sample_url"
    by (simp add: sample_url_def suffix_to_prefix)
  have a: "complete_download_with_curl flaky sample_url ''nse_downloads/a.pdf'' ''a.pdf'' empty_world
     = (False, empty_world\<lparr>files := [''nse_downloads/a.pdf'' \<mapsto> ''%PDF-1.4 cut''],
                            tick := 1, calls := [(Curl, sample_url)]\<rparr>)"
    by (simp add: complete_download_with_curl_def complete_download_with_tool_def flaky_def
        offline_def empty_world_def act_def left_behind_def write_file_def exists_def Let_def)
  have b: "complete_smart_download_file flaky sample_url ''a.pdf'' empty_world
     = (False, empty_world\<lparr>files := [''nse_downloads/a.pdf'' \<mapsto> ''%PDF''],
                            tick := 4,
                            calls := [(Requests, sample_url), (Curl, sample_url), (Wget, sample_url)],
                            failed_log := [Failed ''2025-08-09 20:27:19'' sample_url ''a.pdf'']\<rparr>)"
    using s
    by (simp add: complete_smart_download_file_def complete_download_with_requests_def
        complete_download_with_curl_def complete_download_with_wget_def
        complete_download_with_tool_def flaky_def offline_def sample_clock_def empty_world_def
        join_downloads_def act_def tock_def left_behind_def write_file_def remove_if_exists_def
        exists_def Let_def)
  have c: "complete_smart_download_file online sample_url ''a.pdf'' w = (True, w)"
    if "files w ''nse_downloads/a.pdf'' = Some ''%PDF''" for w
    using s that by (simp add: complete_smart_download_file_def join_downloads_def exists_def)
  show ?thesis
    unfolding a b using c by (simp add: empty_world_def)
qed

section \<open>C4: the order of the strategies\<close>

lemma try_methods_append:
  "try_methods e u f (pre @ rest) w =
     (if fst (try_methods e u f pre w) then try_methods e u f pre w
      else try_methods e u f rest (snd (try_methods e u f pre w)))"
  by (induction pre arbitrary: w) (auto simp: Let_def split: prod.splits)

lemma try_methods_hit:
  assumes "try_methods e u f pre w = (False, w1)" and "run_method e m u f w1 = (True, w2)"
  shows "try_methods e u f (pre @ m # post) w = (True, w2)"
  using assms by (simp add: try_methods_append)

lemma try_methods_miss:
  assumes "fst (try_methods e u f (pre @ m # post) w) = False"
  shows "\<exists>w1. try_methods e u f pre w = (False, w1) \<and> fst (run_method e m u f w1) = False"
proof -
  have p: "fst (try_methods e u f pre w) = False"
    using assms by (auto simp: try_methods_append split: if_splits)
  then have "fst (try_methods e u f (m # post) (snd (try_methods e u f pre w))) = False"
    using assms by (simp add: try_methods_append)
  then have "fst (run_method e m u f (snd (try_methods e u f pre w))) = False"
    by (auto simp: Let_def split: prod.splits if_splits)
  with p show ?thesis
    by (cases "try_methods e u f pre w") auto
qed

lemma complete_requests_log:
  "fst (complete_download_with_requests e u p f w) \<Longrightarrow>
   \<exists>t n. download_log (snd (complete_download_with_requests e u p f w))
            = download_log w @ [Downloaded t f n (Some ''requests'')]"
  by (auto simp: complete_download_with_requests_def log_download_def act_def tock_def write_file_def
      remove_if_exists_def remove_def Let_def split: transfer.splits)

lemma complete_tool_log:
  "fst (complete_download_with_tool r s e p f w) \<Longrightarrow>
   \<exists>t n. download_log (snd (complete_download_with_tool r s e p f w))
            = download_log w @ [Downloaded t f n (Some s)]"
  by (auto simp: complete_download_with_tool_def log_download_def tock_def left_behind_def write_file_def
      remove_if_exists_def remove_def Let_def split: proc.splits option.splits if_splits)

lemma complete_curl_log:
  "fst (complete_download_with_curl e u p f w) \<Longrightarrow>
   \<exists>t n. download_log (snd (complete_download_with_curl e u p f w))
            = download_log w @ [Downloaded t f n (Some ''curl'')]"
  unfolding complete_download_with_curl_def
  by (drule complete_tool_log) (simp add: act_def)

lemma complete_wget_log:
  "fst (complete_download_with_wget e u p f w) \<Longrightarrow>
   \<exists>t n. download_log (snd (complete_download_with_wget e u p f w))
            = download_log w @ [Downloaded t f n (Some ''wget'')]"
  unfolding complete_download_with_wget_def
  by (drule complete_tool_log) (simp add: act_def)

lemma complete_smart_download_file_steps:
  assumes "suffix ''.pdf'' u \<or> suffix ''.xml'' u" and "files w (join_downloads f) = None"
  shows "complete_smart_download_file e u f w =
     (let p = join_downloads f;
          r1 = complete_download_with_requests e u p f w;
          r2 = complete_download_with_curl e u p f (snd r1);
          r3 = complete_download_with_wget e u p f (snd r2)
      in if fst r1 then (True, snd r1)
         else if fst r2 then (True, snd r2)
         else if fst r3 then (True, snd r3)
         else (False, tock ((snd r3)\<lparr>failed_log := failed_log (snd r3) @
                 [Failed (plain (clock e (tick (snd r3)))) u f]\<rparr>)))"
  using assms
  by (auto simp: complete_smart_download_file_def exists_def Let_def split: prod.splits)

text \<open>
  C4, as the source has it. In \<open>NSEDownloader.smart_download\<close>, for every list of methods:
  when the methods before the k-th fail and the k-th succeeds, the result is \<open>True\<close> with
  the world the k-th method left, whatever follows it in the list; and the result is
  \<open>False\<close> only when every method of the list was run, in the world its predecessors
  left, and failed. \<open>CompleteNSEMonitor.smart_download_file\<close>, for a URL ending in \<open>.pdf\<close>
  or \<open>.xml\<close> and no file at the target path, does so with requests, curl and wget, and
  the line it adds to the download log names the strategy that succeeded; for any other
  URL it returns \<open>False\<close> and tries nothing.
\<close>

theorem fallback_order:
  "(try_methods e u f pre w = (False, w1) \<and> run_method e m u f w1 = (True, w2) \<longrightarrow>
      smart_download e u f (Some (pre @ m # post)) w = (True, w2))
   \<and> (fst (smart_download e u f (Some (pre @ m # post)) w) = False \<longrightarrow>
        (\<exists>w1. try_methods e u f pre w = (False, w1) \<and> fst (run_method e m u f w1) = False))
   \<and> (\<not> (suffix ''.pdf'' u \<or> suffix ''.xml'' u) \<longrightarrow>
        complete_smart_download_file e u f w = (False, w))
   \<and> ((suffix ''.pdf'' u \<or> suffix ''.xml'' u) \<and> files w (join_downloads f) = None \<longrightarrow>
        (let p = join_downloads f;
             r1 = complete_download_with_requests e u p f w;
             r2 = complete_download_with_curl e u p f (snd r1);
             r3 = complete_download_with_wget e u p f (snd r2);
             r = complete_smart_download_file e u f w
         in (fst r1 \<longrightarrow> r = (True, snd r1)
               \<and> (\<exists>t n. download_log (snd r) = download_log w @ [Downloaded t f n (Some ''requests'')]))
          \<and> (\<not> fst r1 \<and> fst r2 \<longrightarrow> r = (True, snd r2)
               \<and> (\<exists>t n. download_log (snd r) = download_log (snd r1) @ [Downloaded t f n (Some ''curl'')]))
          \<and> (\<not> fst r1 \<and> \<not> fst r2 \<and> fst r3 \<longrightarrow> r = (True, snd r3)
               \<and> (\<exists>t n. download_log (snd r) = download_log (snd r2) @ [Downloaded t f n (Some ''wget'')]))
          \<and> (fst r = False \<longrightarrow> \<not> fst r1 \<and> \<not> fst r2 \<and> \<not> fst r3)))"
proof (intro conjI impI)
  assume "try_methods e u f pre w = (False, w1) \<and> run_method e m u f w1 = (True, w2)"
  then show "smart_download e u f (Some (pre @ m # post)) w = (True, w2)"
    by (simp add: smart_download_def try_methods_hit)
next
  assume "fst (smart_download e u f (Some (pre @ m # post)) w) = False"
  then have "fst (try_methods e u f (pre @ m # post) w) = False"
    by (simp add: smart_download_def)
  then show "\<exists>w1. try_methods e u f pre w = (False, w1) \<and> fst (run_method e m u f w1) = False"
    by (rule try_methods_miss)
next
  assume "\<not> (suffix ''.pdf'' u \<or> suffix ''.xml'' u)"
  then show "complete_smart_download_file e u f w = (False, w)"
    by (simp add: complete_smart_download_file_def)
next
  assume a: "(suffix ''.pdf'' u \<or> suffix ''.xml'' u) \<and> files w (join_downloads f) = None"
  note s = complete_smart_download_file_steps [of u w f e]
  show "let p = join_downloads f;
             r1 = complete_download_with_requests e u p f w;
             r2 = complete_download_with_curl e u p f (snd r1);
             r3 = complete_download_with_wget e u p f (snd r2);
             r = complete_smart_download_file e u f w
         in (fst r1 \<longrightarrow> r = (True, snd r1)
               \<and> (\<exists>t n. download_log (snd r) = download_log w @ [Downloaded t f n (Some ''requests'')]))
          \<and> (\<not> fst r1 \<and> fst r2 \<longrightarrow> r = (True, snd r2)
               \<and> (\<exists>t n. download_log (snd r) = download_log (snd r1) @ [Downloaded t f n (Some ''curl'')]))
          \<and> (\<not> fst r1 \<and> \<not> fst r2 \<and> fst r3 \<longrightarrow> r = (True, snd r3)
               \<and> (\<exists>t n. download_log (snd r) = download_log (snd r2) @ [Downloaded t f n (Some ''wget'')]))
          \<and> (fst r = False \<longrightarrow> \<not> fst r1 \<and> \<not> fst r2 \<and> \<not> fst r3)"
    unfolding Let_def
  proof (intro conjI impI)
    assume "fst (complete_download_with_requests e u (join_downloads f) f w)"
    then show "complete_smart_download_file e u f w
        = (True, snd (complete_download_with_requests e u (join_downloads f) f w))"
      "\<exists>t n. download_log (snd (complete_smart_download_file e u f w))
                = download_log w @ [Downloaded t f n (Some ''requests'')]"
      using a s complete_requests_log [of e u "join_downloads f" f w] by (simp_all add: Let_def)
  next
    assume h: "\<not> fst (complete_download_with_requests e u (join_downloads f) f w)
       \<and> fst (complete_download_with_curl e u (join_downloads f) f
                (snd (complete_download_with_requests e u (join_downloads f) f w)))"
    then show "complete_smart_download_file e u f w
        = (True, snd (complete_download_with_curl e u (join_downloads f) f
                (snd (complete_download_with_requests e u (join_downloads f) f w))))"
      "\<exists>t n. download_log (snd (complete_smart_download_file e u f w))
                = download_log (snd (complete_download_with_requests e u (join_downloads f) f w))
                    @ [Downloaded t f n (Some ''curl'')]"
      using a s complete_curl_log [of e u "join_downloads f" f
          "snd (complete_download_with_requests e u (join_downloads f) f w)"]
      by (simp_all add: Let_def)
  next
    assume h: "\<not> fst (complete_download_with_requests e u (join_downloads f) f w)
       \<and> \<not> fst (complete_download_with_curl e u (join_downloads f) f
                (snd (complete_download_with_requests e u (join_downloads f) f w)))
       \<and> fst (complete_download_with_wget e u (join_downloads f) f
                (snd (complete_download_with_curl e u (join_downloads f) f
                   (snd (complete_download_with_requests e u (join_downloads f) f w)))))"
    then show "complete_smart_download_file e u f w
        = (True, snd (complete_download_with_wget e u (join_downloads f) f
                (snd (complete_download_with_curl e u (join_downloads f) f
                   (snd (complete_download_with_requests e u (join_downloads f) f w))))))"
      "\<exists>t n. download_log (snd (complete_smart_download_file e u f w))
                = download_log (snd (complete_download_with_curl e u (join_downloads f) f
                   (snd (complete_download_with_requests e u (join_downloads f) f w))))
                    @ [Downloaded t f n (Some ''wget'')]"
      using a s complete_wget_log [of e u "join_downloads f" f
          "snd (complete_download_with_curl e u (join_downloads f) f
                   (snd (complete_download_with_requests e u (join_downloads f) f w)))"]
      by (simp_all add: Let_def)
  next
    assume h: "fst (complete_smart_download_file e u f w) = False"
    then show "\<not> fst (complete_download_with_requests e u (join_downloads f) f w)"
      "\<not> fst (complete_download_with_curl e u (join_downloads f) f
                (snd (complete_download_with_requests e u (join_downloads f) f w)))"
      "\<not> fst (complete_download_with_wget e u (join_downloads f) f
                (snd (complete_download_with_curl e u (join_downloads f) f
                   (snd (complete_download_with_requests e u (join_downloads f) f w)))))"
      using a s by (auto simp: Let_def split: if_splits)
  qed
qed

theorem fallback_order_witness:
  "fst (smart_download curl_only sample_url ''a.pdf'' (Some [''requests'', ''curl'', ''wget'', ''threaded''])
          empty_world) = True
   \<and> calls (snd (smart_download curl_only sample_url ''a.pdf''
                   (Some [''requests'', ''curl'', ''wget'', ''threaded'']) empty_world))
       = [(Requests, sample_url), (Requests, sample_url), (Requests, sample_url), (Curl, sample_url)]
   \<and> fst (run_method offline ''requests'' sample_url ''a.pdf'' empty_world) = False
   \<and> fst (complete_smart_download_file curl_only sample_url ''a.pdf'' empty_world) = True
   \<and> download_log (snd (complete_smart_download_file curl_only sample_url ''a.pdf'' empty_world))
       = [Downloaded ''2025-08-09 20:27:19'' ''a.pdf'' 13 (Some ''curl'')]
   \<and> complete_smart_download_file curl_only ''https://nsearchives.nseindia.com/corporate/a.zip''
        ''a.pdf'' empty_world = (False, empty_world)"
proof -
  let ?w1 = "empty_world\<lparr>tick := 3,
               calls := [(Requests, sample_url), (Requests, sample_url), (Requests, sample_url)]\<rparr>"
  let ?w2 = "empty_world\<lparr>files := [''a.pdf'' \<mapsto> ''%PDF-1.4 body''], tick := 4,
               calls := [(Requests, sample_url), (Requests, sample_url), (Requests, sample_url),
                         (Curl, sample_url)]\<rparr>"
  have p: "try_methods curl_only sample_url ''a.pdf'' [''requests''] empty_world = (False, ?w1)"
    by (simp add: run_method_def curl_only_def offline_def empty_world_def act_def
        remove_if_exists_def exists_def Let_def numeral_3_eq_3)
  have k: "run_method curl_only ''curl'' sample_url ''a.pdf'' ?w1 = (True, ?w2)"
    by (simp add: run_method_def method2_curl_subprocess_def method_subprocess_def curl_only_def
        offline_def empty_world_def act_def left_behind_def write_file_def exists_def Let_def)
  have a: "smart_download curl_only sample_url ''a.pdf''
             (Some ([''requests''] @ ''curl'' # [''wget'', ''threaded''])) empty_world = (True, ?w2)"
    using fallback_order [of curl_only sample_url "''a.pdf''" "[''requests'']" empty_world ?w1
        "''curl''" ?w2 "[''wget'', ''threaded'']"] p k
    by blast
  have m: "fst (smart_download offline sample_url ''a.pdf'' (Some ([] @ ''requests'' # [])) empty_world)
      = False"
    by (simp add: smart_download_def run_method_def offline_def empty_world_def act_def
        remove_if_exists_def exists_def Let_def numeral_3_eq_3)
  have b: "fst (run_method offline ''requests'' sample_url ''a.pdf'' empty_world) = False"
    using fallback_order [of offline sample_url "''a.pdf''" "[]" empty_world _ "''requests''" _ "[]"] m
    by auto
  have s: "suffix ''.pdf'' sample_url" "\<not> suffix ''.xml'' sample_url"
    by (simp_all add: sample_url_def suffix_to_prefix)
  have z: "\<not> (suffix ''.pdf'' ''https://nsearchives.nseindia.com/corporate/a.zip''
              \<or> suffix ''.xml'' ''https://nsearchives.nseindia.com/corporate/a.zip'')"
    by (simp add: suffix_to_prefix)
  have c: "complete_smart_download_file curl_only ''https://nsearchives.nseindia.com/corporate/a.zip''
        ''a.pdf'' empty_world = (False, empty_world)"
    using fallback_order [of curl_only "''https://nsearchives.nseindia.com/corporate/a.zip''"
        "''a.pdf''" "[]" empty_world] z
    by blast
  have d: "complete_smart_download_file curl_only sample_url ''a.pdf'' empty_world
      = (True, empty_world\<lparr>files := [''nse_downloads/a.pdf'' \<mapsto> ''%PDF-1.4 body''], tick := 3,
                 calls := [(Requests, sample_url), (Curl, sample_url)],
                 download_log := [Downloaded ''2025-08-09 20:27:19'' ''a.pdf'' 13 (Some ''curl'')]\<rparr>)"
    using s
    by (simp add: complete_smart_download_file_def complete_download_with_requests_def
        complete_download_with_curl_def complete_download_with_tool_def log_download_def
        curl_only_def offline_def sample_clock_def empty_world_def join_downloads_def act_def
        tock_def left_behind_def write_file_def remove_if_exists_def exists_def getsize_def Let_def)
  show ?thesis using a b c d by (simp add: empty_world_def)
qed

theorem failure_without_trying_counterexample:
  "requests_get online 0 ''https://nsearchives.nseindia.com/corporate/a.zip'' = Done ''%PDF-1.4 body''
   \<and> fst (complete_smart_download_file online ''https://nsearchives.nseindia.com/corporate/a.zip''
            ''a.pdf'' empty_world) = False
   \<and> calls (snd (complete_smart_download_file online ''https://nsearchives.nseindia.com/corporate/a.zip''
                   ''a.pdf'' empty_world)) = []"
  by (simp add: complete_smart_download_file_def online_def offline_def empty_world_def
      suffix_to_prefix)

section \<open>C10: the set of seen records\<close>

text \<open>
  C10. In the loop of \<open>CompleteNSEMonitor.check_announcements\<close> a new record's key is put
  into \<open>seen_items\<close> first and \<open>process_announcement\<close>, which downloads, runs on the monitor
  that already has it. Whatever the downloads do, the loop never takes a key out, and
  every record it went through is in the set afterwards. In a later cycle on that
  monitor the record is passed over: the cycle runs as if the feed did not list it.
  The loop of \<open>IncrementalNSEMonitor.method1_process_only_latest_items\<close> has the same
  properties, with its own key.
\<close>

theorem seen_before_download:
  "(item_id_of item \<notin> seen_items mon \<longrightarrow>
      check_loop (complete_process_announcement e True) (item # rest) mon n w
        = check_loop (complete_process_announcement e True) rest
            (mon\<lparr>seen_items := insert (item_id_of item) (seen_items mon)\<rparr>) (n + 1)
            (complete_process_announcement e True
               (mon\<lparr>seen_items := insert (item_id_of item) (seen_items mon)\<rparr>) item w))
   \<and> seen_items mon
        \<subseteq> seen_items (fst (check_loop (complete_process_announcement e True) items mon n w))
   \<and> (item \<in> set items \<longrightarrow>
        item_id_of item
          \<in> seen_items (fst (check_loop (complete_process_announcement e True) items mon n w))
        \<and> check_loop (complete_process_announcement e2 True) later
            (fst (check_loop (complete_process_announcement e True) items mon n w)) n2 w2
          = check_loop (complete_process_announcement e2 True)
              (filter (\<lambda>i. item_id_of i \<noteq> item_id_of item) later)
              (fst (check_loop (complete_process_announcement e True) items mon n w)) n2 w2)
   \<and> (generate_item_id item \<notin> seen_items mon \<longrightarrow>
        method1_loop e (item # rest) mon n w
          = method1_loop e rest
              (mon\<lparr>seen_items := insert (generate_item_id item) (seen_items mon)\<rparr>) (n + 1)
              (incremental_print_announcement e True (download_pdfs mon)
                 (mon\<lparr>seen_items := insert (generate_item_id item) (seen_items mon)\<rparr>) item w))
   \<and> seen_items mon \<subseteq> seen_items (fst (method1_loop e items mon n w))
   \<and> (item \<in> set items \<longrightarrow>
        generate_item_id item \<in> seen_items (fst (method1_loop e items mon n w))
        \<and> method1_loop e2 later (fst (method1_loop e items mon n w)) n2 w2
          = method1_loop e2 (filter (\<lambda>i. generate_item_id i \<noteq> generate_item_id item) later)
              (fst (method1_loop e items mon n w)) n2 w2)"
proof (intro conjI impI)
  assume "item_id_of item \<notin> seen_items mon"
  then show "check_loop (complete_process_announcement e True) (item # rest) mon n w
        = check_loop (complete_process_announcement e True) rest
            (mon\<lparr>seen_items := insert (item_id_of item) (seen_items mon)\<rparr>) (n + 1)
            (complete_process_announcement e True
               (mon\<lparr>seen_items := insert (item_id_of item) (seen_items mon)\<rparr>) item w)"
    by (simp add: Let_def)
next
  show "seen_items mon
        \<subseteq> seen_items (fst (check_loop (complete_process_announcement e True) items mon n w))"
    by (simp add: check_loop_seen)
next
  assume i: "item \<in> set items"
  then show m: "item_id_of item
          \<in> seen_items (fst (check_loop (complete_process_announcement e True) items mon n w))"
    by (simp add: check_loop_seen)
  show "check_loop (complete_process_announcement e2 True) later
            (fst (check_loop (complete_process_announcement e True) items mon n w)) n2 w2
          = check_loop (complete_process_announcement e2 True)
              (filter (\<lambda>i. item_id_of i \<noteq> item_id_of item) later)
              (fst (check_loop (complete_process_announcement e True) items mon n w)) n2 w2"
    using m by (rule check_loop_skip)
next
  assume "generate_item_id item \<notin> seen_items mon"
  then show "method1_loop e (item # rest) mon n w
          = method1_loop e rest
              (mon\<lparr>seen_items := insert (generate_item_id item) (seen_items mon)\<rparr>) (n + 1)
              (incremental_print_announcement e True (download_pdfs mon)
                 (mon\<lparr>seen_items := insert (generate_item_id item) (seen_items mon)\<rparr>) item w)"
    by (simp add: Let_def)
next
  show "seen_items mon \<subseteq> seen_items (fst (method1_loop e items mon n w))"
    by (simp add: method1_loop_seen)
next
  assume i: "item \<in> set items"
  then show m: "generate_item_id item \<in> seen_items (fst (method1_loop e items mon n w))"
    by (simp add: method1_loop_seen)
  show "method1_loop e2 later (fst (method1_loop e items mon n w)) n2 w2
          = method1_loop e2 (filter (\<lambda>i. generate_item_id i \<noteq> generate_item_id item) later)
              (fst (method1_loop e items mon n w)) n2 w2"
    using m by (rule method1_loop_skip)
qed

theorem seen_before_download_witness:
  "seen_items (fst (check_loop (complete_process_announcement offline True) [sample_item]
                     sample_monitor 0 empty_world))
     = {''EPL Limited-08-Aug-2025 21:14:22''}
   \<and> failed_log (snd (snd (check_loop (complete_process_announcement offline True) [sample_item]
                     sample_monitor 0 empty_world)))
     = [Failed ''2025-08-09 20:27:19'' sample_url ''EPL_Limited_08Aug2025_211422.pdf'']
   \<and> check_loop (complete_process_announcement online True) [sample_item]
        (fst (check_loop (complete_process_announcement offline True) [sample_item]
                sample_monitor 0 empty_world)) 0 empty_world
     = (fst (check_loop (complete_process_announcement offline True) [sample_item]
                sample_monitor 0 empty_world), 0, empty_world)
   \<and> seen_items (fst (method1_loop offline [sample_entry] sample_monitor 0 empty_world))
     = {''EPL Limited-08-Aug-2025 21:14:22-https://nsearchives.nseindia.com/corporate/a.pdf''}
   \<and> method1_loop online [sample_entry]
        (fst (method1_loop offline [sample_entry] sample_monitor 0 empty_world)) 0 empty_world
     = (fst (method1_loop offline [sample_entry] sample_monitor 0 empty_world), 0, empty_world)"
proof -
  have id: "item_id_of sample_item = ''EPL Limited-08-Aug-2025 21:14:22''"
    "generate_item_id sample_entry
       = ''EPL Limited-08-Aug-2025 21:14:22-https://nsearchives.nseindia.com/corporate/a.pdf''"
    by (simp_all add: item_id_of_def generate_item_id_def sample_item_def sample_entry_def get_def)
  have new: "item_id_of sample_item \<notin> seen_items sample_monitor"
    "generate_item_id sample_entry \<notin> seen_items sample_monitor"
    by (simp_all add: sample_monitor_def)
  have mem: "sample_item \<in> set [sample_item]" "sample_entry \<in> set [sample_entry]" by simp_all
  note t1 = seen_before_download [of sample_item sample_monitor offline "[]" 0 empty_world
      "[sample_item]" online "[sample_item]" 0 empty_world]
  note t2 = seen_before_download [of sample_entry sample_monitor offline "[]" 0 empty_world
      "[sample_entry]" online "[sample_entry]" 0 empty_world]
  have c: "clock offline k = sample_clock" for k by (simp add: offline_def)
  have dl: "failed_log (snd (complete_smart_download_file offline sample_url
               ''EPL_Limited_08Aug2025_211422.pdf'' w))
      = [Failed ''2025-08-09 20:27:19'' sample_url ''EPL_Limited_08Aug2025_211422.pdf'']"
    if "files w = Map.empty" "failed_log w = []" for w
    using sample_url_suffix that
    by (simp add: complete_smart_download_file_def complete_download_with_requests_def
        complete_download_with_curl_def complete_download_with_wget_def
        complete_download_with_tool_def offline_def sample_clock_def
        join_downloads_def act_def tock_def remove_if_exists_def exists_def Let_def)
  have fl: "failed_log (snd (snd (check_loop (complete_process_announcement offline True) [sample_item]
                     sample_monitor 0 empty_world)))
     = [Failed ''2025-08-09 20:27:19'' sample_url ''EPL_Limited_08Aug2025_211422.pdf'']"
    using new(1) sample_url_suffix
    by (simp add: Let_def complete_process_announcement_def sample_monitor_def sample_item_fields c
        sample_clock_def sample_name dl tock_def empty_world_def)
  from t1 mem(1) have skip1: "check_loop (complete_process_announcement online True) [sample_item]
        (fst (check_loop (complete_process_announcement offline True) [sample_item]
                sample_monitor 0 empty_world)) 0 empty_world
     = check_loop (complete_process_announcement online True)
              (filter (\<lambda>i. item_id_of i \<noteq> item_id_of sample_item) [sample_item])
        (fst (check_loop (complete_process_announcement offline True) [sample_item]
                sample_monitor 0 empty_world)) 0 empty_world"
    by blast
  from t2 mem(2) have skip2: "method1_loop online [sample_entry]
        (fst (method1_loop offline [sample_entry] sample_monitor 0 empty_world)) 0 empty_world
     = method1_loop online (filter (\<lambda>i. generate_item_id i \<noteq> generate_item_id sample_entry) [sample_entry])
        (fst (method1_loop offline [sample_entry] sample_monitor 0 empty_world)) 0 empty_world"
    by blast
  have seen1: "seen_items (fst (check_loop (complete_process_announcement offline True) [sample_item]
                     sample_monitor 0 empty_world)) = {''EPL Limited-08-Aug-2025 21:14:22''}"
    by (simp only: check_loop_seen) (simp add: id sample_monitor_def)
  have seen2: "seen_items (fst (method1_loop offline [sample_entry] sample_monitor 0 empty_world))
     = {''EPL Limited-08-Aug-2025 21:14:22-https://nsearchives.nseindia.com/corporate/a.pdf''}"
    by (simp only: method1_loop_seen) (simp add: id sample_monitor_def)
  show ?thesis
    unfolding skip1 skip2 using seen1 seen2 fl by simp
qed

section \<open>C5: the replay of the retry queue\<close>

lemma retry_failed_downloads_idle: "retry_failed_downloads e w = w"
proof (cases "retry_file w")
  case (Holds q)
  then show ?thesis
    by (cases q) (simp_all add: retry_failed_downloads_def incremental_method_def)
qed (simp_all add: retry_failed_downloads_def)

text \<open>
  C5. \<open>IncrementalNSEMonitor.retry_failed_downloads\<close> calls \<open>self.download_pdf\<close>, and the
  class has no method of that name (its orchestrator is \<open>download_pdf_with_smart_fallback\<close>):
  the first entry raises, the handler around the whole pass prints the error, and the
  queue file is not rewritten. Here one entry waits in the queue and the server would
  serve it: the orchestrator succeeds on it, and the replay changes nothing at all.
\<close>

theorem retry_replays_nothing:
  "retry_file queued_world = Holds [sample_retry]
   \<and> fst (download_pdf_with_smart_fallback online (item_url sample_retry)
            (item_filename sample_retry) queued_world) = True
   \<and> retry_failed_downloads online queued_world = queued_world
   \<and> retry_file (retry_failed_downloads online queued_world) = Holds [sample_retry]
   \<and> calls (retry_failed_downloads online queued_world) = []"
proof -
  have s: "suffix ''.pdf'' sample_url" "sample_url \<noteq> []"
    by (simp_all add: sample_url_def suffix_to_prefix)
  have d: "fst (download_pdf_with_smart_fallback online (item_url sample_retry)
            (item_filename sample_retry) queued_world) = True"
    using s
    by (simp add: download_pdf_with_smart_fallback_def sample_retry_def queued_world_def
        empty_world_def online_def offline_def join_downloads_def exists_def act_def
        write_file_def log_download_def tock_def getsize_def Let_def numeral_3_eq_3)
  show ?thesis
    using d by (simp add: retry_failed_downloads_idle) (simp add: queued_world_def empty_world_def)
qed

section \<open>C3: when the cache is written\<close>

lemma cache_act [simp]: "cache_files (act t u w) = cache_files w"
  by (simp add: act_def)

lemma cache_tock [simp]: "cache_files (tock w) = cache_files w"
  by (simp add: tock_def)

lemma cache_write_file [simp]: "cache_files (write_file p b w) = cache_files w"
  by (simp add: write_file_def)

lemma cache_remove [simp]: "cache_files (remove p w) = cache_files w"
  by (simp add: remove_def)

lemma cache_remove_if_exists [simp]: "cache_files (remove_if_exists p w) = cache_files w"
  by (simp add: remove_if_exists_def)

lemma cache_left_behind [simp]: "cache_files (left_behind eff p w) = cache_files w"
  by (simp add: left_behind_def split: option.splits)

lemma cache_log_download [simp]: "cache_files (log_download e f n s w) = cache_files w"
  by (simp add: log_download_def)

lemma cache_complete_requests [simp]:
  "cache_files (snd (complete_download_with_requests e u p f w)) = cache_files w"
  by (simp add: complete_download_with_requests_def Let_def split: transfer.splits)

lemma cache_complete_tool [simp]:
  "cache_files (snd (complete_download_with_tool r s e p f w)) = cache_files w"
  by (simp add: complete_download_with_tool_def Let_def split: proc.splits)

lemma cache_complete_curl [simp]:
  "cache_files (snd (complete_download_with_curl e u p f w)) = cache_files w"
  by (simp add: complete_download_with_curl_def)

lemma cache_complete_wget [simp]:
  "cache_files (snd (complete_download_with_wget e u p f w)) = cache_files w"
  by (simp add: complete_download_with_wget_def)

lemma cache_complete_smart [simp]:
  "cache_files (snd (complete_smart_download_file e u f w)) = cache_files w"
proof (cases "(suffix ''.pdf'' u \<or> suffix ''.xml'' u) \<and> files w (join_downloads f) = None")
  case True
  then show ?thesis
    by (simp add: complete_smart_download_file_steps Let_def)
next
  case False
  then show ?thesis
    by (auto simp: complete_smart_download_file_def exists_def Let_def)
qed

lemma cache_complete_process [simp]:
  "cache_files (complete_process_announcement e n mon item w) = cache_files w"
  by (simp add: complete_process_announcement_def Let_def)

lemma cache_simple_download [simp]:
  "cache_files (snd (simple_download_pdf_with_curl e u f w)) = cache_files w"
  by (simp add: simple_download_pdf_with_curl_def Let_def split: proc.splits)

lemma cache_simple_process [simp]:
  "cache_files (simple_process_announcement e n mon item w) = cache_files w"
  by (simp add: simple_process_announcement_def Let_def)

lemma cache_download_method_requests [simp]:
  "cache_files (snd (download_method_requests e u p k w)) = cache_files w"
  by (induction k arbitrary: w) (simp_all add: Let_def split: transfer.splits)

lemma cache_download_method_tool [simp]:
  "cache_files (snd (download_method_tool r s e p w)) = cache_files w"
  by (simp add: download_method_tool_def Let_def split: proc.splits)

lemma cache_download_pdf [simp]:
  "cache_files (snd (download_pdf_with_smart_fallback e u f w)) = cache_files w"
  by (simp add: download_pdf_with_smart_fallback_def download_method_curl_def
      download_method_wget_def Let_def case_prod_unfold)

lemma cache_print_announcement [simp]:
  "cache_files (incremental_print_announcement e n d mon entry w) = cache_files w"
  by (simp add: incremental_print_announcement_def Let_def case_prod_unfold)

lemma cache_check_loop:
  assumes "\<And>m i w. cache_files (P m i w) = cache_files w"
  shows "cache_files (snd (snd (check_loop P items mon n w))) = cache_files w"
  by (induction items arbitrary: mon n w) (simp_all add: Let_def assms)

lemma cache_method1_loop [simp]:
  "cache_files (snd (snd (method1_loop e entries mon n w))) = cache_files w"
  by (induction entries arbitrary: mon n w) (simp_all add: Let_def)

lemma cache_method1 [simp]:
  "cache_files (snd (method1_process_only_latest_items e mon w)) = cache_files w"
  by (simp add: method1_process_only_latest_items_def Let_def case_prod_unfold split: option.splits)

lemma check_loop_count:
  "0 < fst (snd (check_loop P items mon n w))
     \<longleftrightarrow> 0 < n \<or> (\<exists>i \<in> set items. item_id_of i \<notin> seen_items mon)"
  by (induction items arbitrary: mon n w) (auto simp: Let_def)

lemma check_cycle:
  assumes "\<And>m i w. cache_files (P m i w) = cache_files w"
    and "r = (let (mon', new_count, w') = check_loop P latest mon 0 w1
              in if new_count > 0 then (mon', save_cache path False e mon' w') else (mon', w'))"
    and "cache_files w1 = cache_files w"
  shows "seen_items (fst r) = seen_items mon \<union> item_id_of ` set latest
         \<and> ((\<forall>i \<in> set latest. item_id_of i \<in> seen_items mon) \<longrightarrow>
               cache_files (snd r) = cache_files w)
         \<and> ((\<exists>i \<in> set latest. item_id_of i \<notin> seen_items mon) \<longrightarrow>
               (\<exists>t. cache_files (snd r) =
                  (cache_files w)(path := Holds \<lparr>cached_items = seen_items (fst r),
                                                  last_check_time = None, last_updated = t\<rparr>)))"
proof -
  obtain mon' k w' where l: "check_loop P latest mon 0 w1 = (mon', k, w')"
    by (cases "check_loop P latest mon 0 w1") auto
  have s: "seen_items mon' = seen_items mon \<union> item_id_of ` set latest"
    using check_loop_seen [of P latest mon 0 w1] l by simp
  have c: "cache_files w' = cache_files w"
    using cache_check_loop [of P latest mon 0 w1] assms(1,3) l by simp
  have k: "0 < k \<longleftrightarrow> (\<exists>i \<in> set latest. item_id_of i \<notin> seen_items mon)"
    using check_loop_count [of P latest mon 0 w1] l by simp
  show ?thesis
  proof (cases "0 < k")
    case True
    then have "r = (mon', save_cache path False e mon' w')" using assms(2) l by simp
    then show ?thesis using s c k True by (auto simp: save_cache_def Let_def)
  next
    case False
    then have "r = (mon', w')" using assms(2) l by simp
    then show ?thesis using s c k False by auto
  qed
qed

lemma complete_fetch_Some:
  assumes "complete_fetch_rss_with_curl e w = (Some content, w1)"
  shows "content \<noteq> []" and "cache_files w1 = cache_files w"
  using assms by (auto simp: complete_fetch_rss_with_curl_def dest: accept_rss_Some)

lemma simple_fetch_Some:
  assumes "simple_fetch_rss_with_curl e w = (Some content, w1)"
  shows "content \<noteq> []" and "cache_files w1 = cache_files w"
  using assms
  by (auto simp: simple_fetch_rss_with_curl_def Let_def dest: accept_rss_Some
      split: option.splits if_splits)

text \<open>
  C3, as the source has it. \<open>CompleteNSEMonitor.check_announcements\<close> and
  \<open>SimpleNSECurlMonitor.check_announcements\<close>, in a cycle whose feed was fetched and gave
  records, write the cache file exactly when one of the records they went through was
  new: it then holds the enlarged set of seen keys; when every record was seen already,
  the cache file is left as it was. \<open>IncrementalNSEMonitor.smart_incremental_check\<close> writes
  its cache file at the end of every cycle, with \<open>last_check_time\<close> and \<open>last_updated\<close> from
  two readings of the clock, one after the other.
\<close>

theorem cache_written_when_new:
  "(complete_fetch_rss_with_curl e w = (Some content, w1)
      \<and> fst (parse_rss_manually e content) = items \<and> items \<noteq> [] \<longrightarrow>
      (let latest = py_take (max_items mon) items;
           r = complete_check_announcements e mon w
       in seen_items (fst r) = seen_items mon \<union> item_id_of ` set latest
          \<and> ((\<forall>i \<in> set latest. item_id_of i \<in> seen_items mon) \<longrightarrow>
                cache_files (snd r) = cache_files w)
          \<and> ((\<exists>i \<in> set latest. item_id_of i \<notin> seen_items mon) \<longrightarrow>
                (\<exists>t. cache_files (snd r) =
                   (cache_files w)(''nse_complete_cache.json'' :=
                      Holds \<lparr>cached_items = seen_items (fst r), last_check_time = None,
                              last_updated = t\<rparr>)))))
   \<and> (simple_fetch_rss_with_curl e w = (Some content, w1)
      \<and> fst (parse_rss_manually e content) = items \<and> items \<noteq> [] \<longrightarrow>
      (let latest = py_take limit items;
           r = simple_check_announcements e limit mon w
       in seen_items (fst r) = seen_items mon \<union> item_id_of ` set latest
          \<and> ((\<forall>i \<in> set latest. item_id_of i \<in> seen_items mon) \<longrightarrow>
                cache_files (snd r) = cache_files w)
          \<and> ((\<exists>i \<in> set latest. item_id_of i \<notin> seen_items mon) \<longrightarrow>
                (\<exists>t. cache_files (snd r) =
                   (cache_files w)(''nse_simple_cache.json'' :=
                      Holds \<lparr>cached_items = seen_items (fst r), last_check_time = None,
                              last_updated = t\<rparr>)))))
   \<and> cache_files (snd (smart_incremental_check e mon w)) =
          (cache_files w)(''nse_incremental_cache.json'' :=
             Holds \<lparr>cached_items = seen_items (fst (smart_incremental_check e mon w)),
                     last_check_time =
                       Some (iso (clock e (tick (snd (method1_process_only_latest_items e mon w))))),
                     last_updated =
                       iso (clock e (Suc (tick (snd (method1_process_only_latest_items e mon w)))))\<rparr>)"
proof (intro conjI impI)
  assume a: "complete_fetch_rss_with_curl e w = (Some content, w1)
      \<and> fst (parse_rss_manually e content) = items \<and> items \<noteq> []"
  note f = complete_fetch_Some [of e w content w1]
  have r: "complete_check_announcements e mon w =
     (let (mon', new_count, w') =
            check_loop (complete_process_announcement e True) (py_take (max_items mon) items) mon 0 w1
      in if new_count > 0 then (mon', save_cache ''nse_complete_cache.json'' False e mon' w')
         else (mon', w'))"
    using a f(1) by (simp add: complete_check_announcements_def Let_def)
  show "let latest = py_take (max_items mon) items;
           r = complete_check_announcements e mon w
       in seen_items (fst r) = seen_items mon \<union> item_id_of ` set latest
          \<and> ((\<forall>i \<in> set latest. item_id_of i \<in> seen_items mon) \<longrightarrow>
                cache_files (snd r) = cache_files w)
          \<and> ((\<exists>i \<in> set latest. item_id_of i \<notin> seen_items mon) \<longrightarrow>
                (\<exists>t. cache_files (snd r) =
                   (cache_files w)(''nse_complete_cache.json'' :=
                      Holds \<lparr>cached_items = seen_items (fst r), last_check_time = None,
                              last_updated = t\<rparr>)))"
    unfolding Let_def
    by (rule check_cycle [OF cache_complete_process r]) (simp add: f(2) a)
next
  assume a: "simple_fetch_rss_with_curl e w = (Some content, w1)
      \<and> fst (parse_rss_manually e content) = items \<and> items \<noteq> []"
  note f = simple_fetch_Some [of e w content w1]
  have r: "simple_check_announcements e limit mon w =
     (let (mon', new_count, w') =
            check_loop (simple_process_announcement e True) (py_take limit items) mon 0 w1
      in if new_count > 0 then (mon', save_cache ''nse_simple_cache.json'' False e mon' w')
         else (mon', w'))"
    using a f(1) by (simp add: simple_check_announcements_def Let_def)
  show "let latest = py_take limit items;
           r = simple_check_announcements e limit mon w
       in seen_items (fst r) = seen_items mon \<union> item_id_of ` set latest
          \<and> ((\<forall>i \<in> set latest. item_id_of i \<in> seen_items mon) \<longrightarrow>
                cache_files (snd r) = cache_files w)
          \<and> ((\<exists>i \<in> set latest. item_id_of i \<notin> seen_items mon) \<longrightarrow>
                (\<exists>t. cache_files (snd r) =
                   (cache_files w)(''nse_simple_cache.json'' :=
                      Holds \<lparr>cached_items = seen_items (fst r), last_check_time = None,
                              last_updated = t\<rparr>)))"
    unfolding Let_def
    by (rule check_cycle [OF cache_simple_process r]) (simp add: f(2) a)
next
  show "cache_files (snd (smart_incremental_check e mon w)) =
          (cache_files w)(''nse_incremental_cache.json'' :=
             Holds \<lparr>cached_items = seen_items (fst (smart_incremental_check e mon w)),
                     last_check_time =
                       Some (iso (clock e (tick (snd (method1_process_only_latest_items e mon w))))),
                     last_updated =
                       iso (clock e (Suc (tick (snd (method1_process_only_latest_items e mon w)))))\<rparr>)"
    by (simp add: smart_incremental_check_def save_cache_def tock_def Let_def case_prod_unfold)
qed

theorem cache_written_when_new_witness:
  "seen_items (fst (complete_check_announcements online sample_monitor empty_world))
     = {''EPL Limited-08-Aug-2025 21:14:22''}
   \<and> (\<exists>t. cache_files (snd (complete_check_announcements online sample_monitor empty_world)) =
          (cache_files empty_world)(''nse_complete_cache.json'' :=
             Holds \<lparr>cached_items = {''EPL Limited-08-Aug-2025 21:14:22''}, last_check_time = None,
                     last_updated = t\<rparr>))
   \<and> cache_files (snd (complete_check_announcements online seen_monitor cached_world))
     = cache_files cached_world"
proof -
  let ?items = "fst (parse_rss_manually online sample_feed)"
  have ne: "?items \<noteq> []" using sample_parse by auto
  have m1: "max_items sample_monitor = 20" "seen_items sample_monitor = {}"
    by (simp_all add: sample_monitor_def)
  have m2: "max_items seen_monitor = 20"
    "seen_items seen_monitor = {''EPL Limited-08-Aug-2025 21:14:22''}"
    by (simp_all add: seen_monitor_def)
  have new: "\<exists>i \<in> set (py_take (max_items sample_monitor) ?items). item_id_of i \<notin> seen_items sample_monitor"
    using sample_latest by (simp add: m1) blast
  have old: "\<forall>i \<in> set (py_take (max_items seen_monitor) ?items). item_id_of i \<in> seen_items seen_monitor"
    using sample_latest by (simp add: m2) blast
  have h1: "complete_fetch_rss_with_curl online empty_world = (Some sample_feed, act CurlRss rss_url empty_world)
      \<and> fst (parse_rss_manually online sample_feed) = ?items \<and> ?items \<noteq> []"
    using sample_fetch ne by simp
  have h2: "complete_fetch_rss_with_curl online cached_world = (Some sample_feed, act CurlRss rss_url cached_world)
      \<and> fst (parse_rss_manually online sample_feed) = ?items \<and> ?items \<noteq> []"
    using sample_fetch ne by simp
  note t1 = cache_written_when_new [of online empty_world sample_feed "act CurlRss rss_url empty_world"
      ?items sample_monitor, THEN conjunct1, THEN mp, OF h1, unfolded Let_def]
  note t2 = cache_written_when_new [of online cached_world sample_feed "act CurlRss rss_url cached_world"
      ?items seen_monitor, THEN conjunct1, THEN mp, OF h2, unfolded Let_def]
  have a: "seen_items (fst (complete_check_announcements online sample_monitor empty_world))
     = {''EPL Limited-08-Aug-2025 21:14:22''}"
    using t1 [THEN conjunct1] sample_latest by (simp add: m1)
  have b: "\<exists>t. cache_files (snd (complete_check_announcements online sample_monitor empty_world)) =
          (cache_files empty_world)(''nse_complete_cache.json'' :=
             Holds \<lparr>cached_items = {''EPL Limited-08-Aug-2025 21:14:22''}, last_check_time = None,
                     last_updated = t\<rparr>)"
    using t1 [THEN conjunct2, THEN conjunct2, THEN mp, OF new] a by simp
  have c: "cache_files (snd (complete_check_announcements online seen_monitor cached_world))
     = cache_files cached_world"
    using t2 [THEN conjunct2, THEN conjunct1, THEN mp, OF old] .
  show ?thesis using a b c by blast
qed

theorem cache_not_written_counterexample:
  "fst (complete_fetch_rss_with_curl online cached_world) = Some sample_feed
   \<and> map item_id_of (fst (parse_rss_manually online sample_feed))
       = [''EPL Limited-08-Aug-2025 21:14:22'']
   \<and> cache_files (snd (complete_check_announcements online seen_monitor cached_world))
        ''nse_complete_cache.json'' = Holds old_cache
   \<and> last_updated old_cache = ''2025-08-09T20:00:00''
   \<and> iso (clock online (tick (snd (complete_check_announcements online seen_monitor cached_world))))
       = ''2025-08-09T20:27:19''"
proof -
  let ?items = "fst (parse_rss_manually online sample_feed)"
  have ne: "?items \<noteq> []" "sample_feed \<noteq> []" using sample_parse by (auto simp: sample_feed_def)
  have old: "\<forall>i \<in> set (py_take 20 ?items). item_id_of i \<in> seen_items seen_monitor"
    using sample_latest by (simp add: seen_monitor_def) blast
  have r: "complete_check_announcements online seen_monitor cached_world =
     (let (mon', new_count, w') =
            check_loop (complete_process_announcement online True) (py_take 20 ?items)
              seen_monitor 0 (act CurlRss rss_url cached_world)
      in if new_count > 0 then (mon', save_cache ''nse_complete_cache.json'' False online mon' w')
         else (mon', w'))"
    using ne by (simp add: complete_check_announcements_def sample_fetch Let_def seen_monitor_def)
  have "cache_files (snd (complete_check_announcements online seen_monitor cached_world))
     = cache_files cached_world"
    using check_cycle [OF cache_complete_process r, of cached_world] old by simp
  then have c: "cache_files (snd (complete_check_announcements online seen_monitor cached_world))
        ''nse_complete_cache.json'' = Holds old_cache"
    by (simp add: cached_world_def empty_world_def)
  have f: "fst (complete_fetch_rss_with_curl online cached_world) = Some sample_feed"
    by (simp add: sample_fetch)
  have u: "last_updated old_cache = ''2025-08-09T20:00:00''"
    by (simp add: old_cache_def)
  note k = sample_clock_iso
  show ?thesis
    using f sample_parse c u k by blast
qed

end
